theory Spec2Isabelle
  imports Main
begin

section \<open>Python values, exceptions and dictionaries\<close>

text \<open>
  The values that travel through \<^verbatim>\<open>parse.py\<close>: what \<^verbatim>\<open>json.load\<close> produces
  (null, strings, numbers, arrays, objects) and the missing-cell marker of pandas
  (\<^verbatim>\<open>numpy.nan\<close>). A number is a Python \<^verbatim>\<open>int\<close> or the \<^verbatim>\<open>float\<close> equal to it (Python
  compares and hashes the two alike; pandas may turn one into the other). A dictionary is
  an association list in insertion order; its keys are values, since pandas builds
  dictionaries keyed by cell contents.
\<close>

datatype pyval =
    PNone
  | PNaN
  | PStr string
  | PInt int
  | PList "pyval list"
  | PDict "(pyval \<times> pyval) list"

type_synonym pydict = "(pyval \<times> pyval) list"

datatype pyexc =
    KeyError
  | TypeError
  | NameError
  | IndexError
  | ValueError
  | AttributeError
  | ZeroDivisionError
  | OSError

text \<open>Lists and dictionaries are unhashable: using one as a key raises \<^verbatim>\<open>TypeError\<close>.\<close>

fun hashable :: "pyval \<Rightarrow> bool" where
  "hashable (PList _) = False"
| "hashable (PDict _) = False"
| "hashable _ = True"

text \<open>
  \<^verbatim>\<open>d[k]\<close> on a dictionary. Keys are compared as values. For \<^verbatim>\<open>NaN\<close> this is the
  behaviour of the one object \<^verbatim>\<open>numpy.nan\<close> that pandas puts into cells, which a dictionary
  finds by identity; a \<^verbatim>\<open>NaN\<close> computed elsewhere finds no key in Python.
\<close>

definition dict_get :: "pydict \<Rightarrow> pyval \<Rightarrow> pyexc + pyval" where
  "dict_get d k =
     (if \<not> hashable k then Inl TypeError
      else case map_of d k of None \<Rightarrow> Inl KeyError | Some v \<Rightarrow> Inr v)"

text \<open>
  \<^verbatim>\<open>d[k] = v\<close> for a hashable key: an existing key keeps its position and takes the new
  value, a new key goes last.
\<close>

fun dict_set :: "pydict \<Rightarrow> pyval \<Rightarrow> pyval \<Rightarrow> pydict" where
  "dict_set [] k v = [(k, v)]"
| "dict_set ((k', v') # d) k v =
     (if k' = k then (k, v) # d else (k', v') # dict_set d k v)"

text \<open>\<^verbatim>\<open>dict(pairs)\<close> and \<^verbatim>\<open>a.update(b)\<close>: the pairs are stored one after the other.\<close>

definition dict_update :: "pydict \<Rightarrow> (pyval \<times> pyval) list \<Rightarrow> pydict" where
  "dict_update a kvs = foldl (\<lambda>d (k, v). dict_set d k v) a kvs"

definition dict_of_pairs :: "(pyval \<times> pyval) list \<Rightarrow> pyexc + pydict" where
  "dict_of_pairs kvs =
     (if list_all (\<lambda>(k, v). hashable k) kvs then Inr (dict_update [] kvs) else Inl TypeError)"

text \<open>\<^verbatim>\<open>x[k]\<close> with a string key \<open>k\<close> on any value: only a dictionary takes it.\<close>

fun subscript :: "pyval \<Rightarrow> pyval \<Rightarrow> pyexc + pyval" where
  "subscript (PDict d) k = dict_get d k"
| "subscript _ k = Inl TypeError"

text \<open>
  \<^verbatim>\<open>for m in x\<close>: a list yields its elements, a dictionary its keys, a string its
  characters; nothing else is iterable.
\<close>

fun py_iter :: "pyval \<Rightarrow> pyexc + pyval list" where
  "py_iter (PList xs) = Inr xs"
| "py_iter (PDict d) = Inr (map fst d)"
| "py_iter (PStr s) = Inr (map (\<lambda>c. PStr [c]) s)"
| "py_iter _ = Inl TypeError"

section \<open>Interaction types and the module's free names\<close>

datatype RType = RETWEET | QUOTE | REPLY | MENTION

fun RType_value :: "RType \<Rightarrow> int" where
  "RType_value RETWEET = 1"
| "RType_value QUOTE = 2"
| "RType_value REPLY = 3"
| "RType_value MENTION = 4"

text \<open>
  \<^verbatim>\<open>parse.py\<close> imports \<^verbatim>\<open>enum\<close>, \<^verbatim>\<open>pandas\<close>, \<^verbatim>\<open>numpy\<close> and \<^verbatim>\<open>logging\<close> and binds nothing
  else at module level but \<^verbatim>\<open>RType\<close> and its functions. Three groups of names are used
  without being bound: \<^verbatim>\<open>utils\<close> (in \<^verbatim>\<open>parse_retweets\<close> and \<^verbatim>\<open>parse_quotes\<close>), \<^verbatim>\<open>logger\<close>
  (in \<^verbatim>\<open>concat_and_pickle\<close>, which does not take it as a parameter), and \<^verbatim>\<open>os\<close>, \<^verbatim>\<open>osp\<close>,
  \<^verbatim>\<open>json\<close>, \<^verbatim>\<open>time\<close> (in \<^verbatim>\<open>read_aggregate_pickle\<close>). Reading an unbound name raises
  \<^verbatim>\<open>NameError\<close>. The record says which of them the module's namespace holds when a
  function runs: \<open>utils_bound\<close> means that \<^verbatim>\<open>utils\<close> is a namespace whose \<^verbatim>\<open>RType\<close> is the
  enumeration above.
\<close>

record globals =
  utils_bound :: bool
  logger_bound :: bool
  stdlib_bound :: bool

text \<open>The namespace of the file as it is written.\<close>

definition module_globals :: globals where
  "module_globals = \<lparr>utils_bound = False, logger_bound = False, stdlib_bound = False\<rparr>"

text \<open>\<^verbatim>\<open>utils.RType.X.value\<close>\<close>

definition utils_RType_value :: "globals \<Rightarrow> RType \<Rightarrow> pyexc + int" where
  "utils_RType_value g r = (if utils_bound g then Inr (RType_value r) else Inl NameError)"

section \<open>Edge builders\<close>

text \<open>The dictionary display that every builder returns, its four keys in source order.\<close>

definition edge :: "pyval \<Rightarrow> pyval \<Rightarrow> pyval \<Rightarrow> int \<Rightarrow> pydict" where
  "edge src tar tweet_id rtype =
     [(PStr ''src_user_id'', src), (PStr ''tar_user_id'', tar),
      (PStr ''tweet_id'', tweet_id), (PStr ''rtype'', PInt rtype)]"

definition parse_replies :: "pyval \<Rightarrow> pyval \<Rightarrow> pyval \<Rightarrow> pydict" where
  "parse_replies tweet_id author_id in_reply_to_user_id =
     edge in_reply_to_user_id author_id tweet_id (RType_value REPLY)"

text \<open>
  The loop of \<^verbatim>\<open>parse_mentions\<close>: one edge per element, \<^verbatim>\<open>m["id"]\<close> raising out of the
  function (there is no \<^verbatim>\<open>try\<close>) at the first element that has no such key.
\<close>

fun mentions_loop :: "pyval \<Rightarrow> pyval \<Rightarrow> pyval list \<Rightarrow> pydict list \<Rightarrow> pyexc + pydict list" where
  "mentions_loop tweet_id author_id [] mentions = Inr mentions"
| "mentions_loop tweet_id author_id (m # ms) mentions =
     (case subscript m (PStr ''id'') of
        Inl e \<Rightarrow> Inl e
      | Inr mid \<Rightarrow>
          mentions_loop tweet_id author_id ms
            (mentions @ [edge author_id mid tweet_id (RType_value MENTION)]))"

text \<open>\<^verbatim>\<open>entities.keys()\<close> exists on a dictionary only.\<close>

fun parse_mentions :: "pyval \<Rightarrow> pyval \<Rightarrow> pyval \<Rightarrow> pyexc + pydict list" where
  "parse_mentions tweet_id author_id (PDict entities) =
     (if PStr ''mentions'' \<in> set (map fst entities) then
        (case dict_get entities (PStr ''mentions'') of
           Inl e \<Rightarrow> Inl e
         | Inr ms \<Rightarrow>
            (case py_iter ms of
               Inl e \<Rightarrow> Inl e
             | Inr elems \<Rightarrow> mentions_loop tweet_id author_id elems []))
      else Inr [])"
| "parse_mentions tweet_id author_id _ = Inl AttributeError"

section \<open>Data frames\<close>

text \<open>
  A pandas \<^verbatim>\<open>DataFrame\<close>: the row labels and the columns in order, each column a label
  with one cell per row. In a frame built by pandas every column is as long as the index.
  Cells are kept as given: the conversions pandas makes inside a column of numbers
  (between numeric types, and of \<^verbatim>\<open>None\<close> to \<^verbatim>\<open>NaN\<close>) are not modelled.
\<close>

record frame =
  index :: "pyval list"
  cols :: "(pyval \<times> pyval list) list"

definition rectangular :: "frame \<Rightarrow> bool" where
  "rectangular f \<longleftrightarrow> list_all (\<lambda>(l, cs). length cs = length (index f)) (cols f)"

definition empty_frame :: frame where
  "empty_frame = \<lparr>index = [], cols = []\<rparr>"

definition range_index :: "nat \<Rightarrow> pyval list" where
  "range_index n = map (\<lambda>i. PInt (int i)) [0..<n]"

text \<open>
  \<^verbatim>\<open>df.set_index(k)\<close>: the column becomes the row labels and leaves the columns. (Where
  a label names several columns the first is taken; no frame built from JSON objects has
  such columns.)
\<close>

definition set_index :: "pyval \<Rightarrow> frame \<Rightarrow> pyexc + frame" where
  "set_index k f =
     (case map_of (cols f) k of
        None \<Rightarrow> Inl KeyError
      | Some cs \<Rightarrow> Inr \<lparr>index = cs, cols = filter (\<lambda>(l, _). l \<noteq> k) (cols f)\<rparr>)"

text \<open>\<^verbatim>\<open>df[k]\<close>: the cells of one column (a \<^verbatim>\<open>Series\<close> over the frame's index).\<close>

definition column :: "frame \<Rightarrow> pyval \<Rightarrow> pyexc + pyval list" where
  "column f k = (case map_of (cols f) k of None \<Rightarrow> Inl KeyError | Some cs \<Rightarrow> Inr cs)"

text \<open>\<^verbatim>\<open>Series.to_dict()\<close>: row label to cell, a later row replacing an earlier one.\<close>

definition series_to_dict :: "pyval list \<Rightarrow> pyval list \<Rightarrow> pyexc + pydict" where
  "series_to_dict idx cs = dict_of_pairs (zip idx cs)"

text \<open>\<^verbatim>\<open>df.set_index("id")["author_id"].to_dict()\<close>\<close>

definition author_dict :: "frame \<Rightarrow> pyexc + pydict" where
  "author_dict df =
     (case set_index (PStr ''id'') df of
        Inl e \<Rightarrow> Inl e
      | Inr by_id \<Rightarrow>
         (case column by_id (PStr ''author_id'') of
            Inl e \<Rightarrow> Inl e
          | Inr cs \<Rightarrow> series_to_dict (index by_id) cs))"

text \<open>
  \<^verbatim>\<open>parse_retweets\<close> and \<^verbatim>\<open>parse_quotes\<close> are the same text but for the member of
  \<^verbatim>\<open>utils.RType\<close>. The body of each \<^verbatim>\<open>try\<close> looks the target up and then builds the
  dictionary display, whose last value reads \<^verbatim>\<open>utils\<close>; the bare \<^verbatim>\<open>except\<close> catches whatever
  either step raises. The two index dictionaries are built before the first \<^verbatim>\<open>try\<close>.
\<close>

definition lookup_edge ::
  "globals \<Rightarrow> RType \<Rightarrow> pydict \<Rightarrow> pyval \<Rightarrow> pyval \<Rightarrow> pyval \<Rightarrow> pyexc + pydict" where
  "lookup_edge g r d target_id author_id tweet_id =
     (case dict_get d target_id of
        Inl e \<Rightarrow> Inl e
      | Inr a \<Rightarrow>
         (case utils_RType_value g r of
            Inl e \<Rightarrow> Inl e
          | Inr v \<Rightarrow> Inr (edge a author_id tweet_id v)))"

definition resolve_edge ::
  "globals \<Rightarrow> RType \<Rightarrow> pyval \<Rightarrow> pyval \<Rightarrow> pyval \<Rightarrow> frame \<Rightarrow> frame \<Rightarrow> pyexc + pydict" where
  "resolve_edge g r tweet_id author_id target_id tweet_df referenced_df =
     (case author_dict tweet_df of
        Inl e \<Rightarrow> Inl e
      | Inr tweet_dict \<Rightarrow>
         (case author_dict referenced_df of
            Inl e \<Rightarrow> Inl e
          | Inr ref_dict \<Rightarrow>
             (case lookup_edge g r ref_dict target_id author_id tweet_id of
                Inr d \<Rightarrow> Inr d
              | Inl _ \<Rightarrow>
                 (case lookup_edge g r tweet_dict target_id author_id tweet_id of
                    Inr d \<Rightarrow> Inr d
                  | Inl _ \<Rightarrow> Inr []))))"

definition parse_retweets ::
  "globals \<Rightarrow> pyval \<Rightarrow> pyval \<Rightarrow> pyval \<Rightarrow> frame \<Rightarrow> frame \<Rightarrow> pyexc + pydict" where
  "parse_retweets g tweet_id author_id retweet_id tweet_df referenced_df =
     resolve_edge g RETWEET tweet_id author_id retweet_id tweet_df referenced_df"

definition parse_quotes ::
  "globals \<Rightarrow> pyval \<Rightarrow> pyval \<Rightarrow> pyval \<Rightarrow> frame \<Rightarrow> frame \<Rightarrow> pyexc + pydict" where
  "parse_quotes g tweet_id author_id quote_id tweet_df referenced_df =
     resolve_edge g QUOTE tweet_id author_id quote_id tweet_df referenced_df"

text \<open>
  What the two builders need of a table for their index dictionaries to be built: an
  \<^verbatim>\<open>id\<close> column of hashable cells and an \<^verbatim>\<open>author_id\<close> column.
\<close>

definition indexable :: "frame \<Rightarrow> bool" where
  "indexable f \<longleftrightarrow>
     (case map_of (cols f) (PStr ''id'') of None \<Rightarrow> False | Some ids \<Rightarrow> list_all hashable ids)
     \<and> PStr ''author_id'' \<in> set (map fst (cols f))"

text \<open>A namespace that binds every free name of the module, and two small tables.\<close>

definition all_bound :: globals where
  "all_bound = \<lparr>utils_bound = True, logger_bound = True, stdlib_bound = True\<rparr>"


definition demo_tweets :: frame where
  "demo_tweets = \<lparr>index = range_index 2,
     cols = [(PStr ''id'', [PStr ''t1'', PStr ''t2'']),
             (PStr ''author_id'', [PStr ''u1'', PStr ''u2''])]\<rparr>"

definition demo_referenced :: frame where
  "demo_referenced = \<lparr>index = range_index 1,
     cols = [(PStr ''id'', [PStr ''t0'']), (PStr ''author_id'', [PStr ''u0''])]\<rparr>"


section \<open>Building frames from JSON\<close>

text \<open>
  What pandas does on shapes that are not modelled here is a parameter: the frame
  constructor on a list that mixes objects, scalars and lists, and on a dictionary that
  mixes scalars, lists and objects;
  \<^verbatim>\<open>Series.apply(pd.Series)\<close> on a column with a cell that is not an object; the
  column-wise \<^verbatim>\<open>pd.concat\<close> of frames over different indexes; the row-wise \<^verbatim>\<open>pd.concat\<close>
  of frames in which a label names several columns.
\<close>

record pandas =
  DataFrame_other :: "pyval \<Rightarrow> pyexc + frame"
  apply_Series_other :: "pyval list \<Rightarrow> pyval list \<Rightarrow> pyexc + frame"
  concat_columns_other :: "frame list \<Rightarrow> pyexc + frame"
  concat_rows_other :: "frame list \<Rightarrow> pyexc + frame"

fun the_dicts :: "pyval list \<Rightarrow> pydict list option" where
  "the_dicts [] = Some []"
| "the_dicts (PDict d # xs) = (case the_dicts xs of None \<Rightarrow> None | Some ds \<Rightarrow> Some (d # ds))"
| "the_dicts (_ # xs) = None"

text \<open>The keys of a list of dictionaries, each once, in the order of first appearance.\<close>

definition add_key :: "pyval list \<Rightarrow> pyval \<Rightarrow> pyval list" where
  "add_key ks k = (if k \<in> set ks then ks else ks @ [k])"

definition keys_union :: "pydict list \<Rightarrow> pyval list" where
  "keys_union ds = foldl add_key [] (concat (map (map fst) ds))"

text \<open>
  \<^verbatim>\<open>pd.DataFrame(list of dicts)\<close>: one row per dictionary over a \<^verbatim>\<open>RangeIndex\<close>, one column
  per key, \<^verbatim>\<open>NaN\<close> where a dictionary lacks the key.
\<close>

definition frame_of_dicts :: "pydict list \<Rightarrow> frame" where
  "frame_of_dicts ds =
     \<lparr>index = range_index (length ds),
      cols = map (\<lambda>k. (k, map (\<lambda>d. case map_of d k of None \<Rightarrow> PNaN | Some v \<Rightarrow> v) ds))
                 (keys_union ds)\<rparr>"

text \<open>
  \<^verbatim>\<open>pd.DataFrame(data)\<close>, which is also \<^verbatim>\<open>pd.DataFrame.from_dict(data)\<close>. \<^verbatim>\<open>None\<close> gives
  the empty frame and a scalar raises \<^verbatim>\<open>ValueError\<close>. A list of objects gives one row per
  object; a list of scalars gives one column, labelled 0. A dictionary of lists gives one
  column per key when the lists are of one length and raises \<^verbatim>\<open>ValueError\<close> when they are
  not; a dictionary of scalars raises \<^verbatim>\<open>ValueError\<close>; the empty dictionary gives the empty
  frame.
\<close>

fun is_scalar :: "pyval \<Rightarrow> bool" where
  "is_scalar (PList _) = False"
| "is_scalar (PDict _) = False"
| "is_scalar _ = True"

fun the_lists :: "pydict \<Rightarrow> (pyval \<times> pyval list) list option" where
  "the_lists [] = Some []"
| "the_lists ((k, PList vs) # d) =
     (case the_lists d of None \<Rightarrow> None | Some cs \<Rightarrow> Some ((k, vs) # cs))"
| "the_lists (_ # d) = None"

definition frame_of_lists :: "(pyval \<times> pyval list) list \<Rightarrow> pyexc + frame" where
  "frame_of_lists cs =
     (case cs of
        [] \<Rightarrow> Inr empty_frame
      | (k, vs) # rest \<Rightarrow>
          if list_all (\<lambda>(k', vs'). length vs' = length vs) rest
          then Inr \<lparr>index = range_index (length vs), cols = cs\<rparr>
          else Inl ValueError)"

fun DataFrame :: "pandas \<Rightarrow> pyval \<Rightarrow> pyexc + frame" where
  "DataFrame pd PNone = Inr empty_frame"
| "DataFrame pd PNaN = Inl ValueError"
| "DataFrame pd (PStr s) = Inl ValueError"
| "DataFrame pd (PInt n) = Inl ValueError"
| "DataFrame pd (PList xs) =
     (case the_dicts xs of
        Some ds \<Rightarrow> Inr (frame_of_dicts ds)
      | None \<Rightarrow>
          if list_all is_scalar xs
          then Inr \<lparr>index = range_index (length xs), cols = [(PInt 0, xs)]\<rparr>
          else DataFrame_other pd (PList xs))"
| "DataFrame pd (PDict d) =
     (if d = [] then Inr empty_frame
      else if list_all (\<lambda>(k, v). is_scalar v) d then Inl ValueError
      else case the_lists d of
             Some cs \<Rightarrow> frame_of_lists cs
           | None \<Rightarrow> DataFrame_other pd (PDict d))"

text \<open>\<^verbatim>\<open>df.T\<close>: rows become columns, under the old row labels.\<close>

definition transpose_frame :: "frame \<Rightarrow> frame" where
  "transpose_frame f =
     \<lparr>index = map fst (cols f),
      cols = map (\<lambda>i. (index f ! i, map (\<lambda>(l, cs). cs ! i) (cols f))) [0..<length (index f)]\<rparr>"

text \<open>\<^verbatim>\<open>df.reset_index(drop=True)\<close>\<close>

definition reset_index_drop :: "frame \<Rightarrow> frame" where
  "reset_index_drop f = f\<lparr>index := range_index (length (index f))\<rparr>"

text \<open>The first exception of a sequence of evaluations, or all their results.\<close>

fun collect :: "(pyexc + 'a) list \<Rightarrow> pyexc + 'a list" where
  "collect [] = Inr []"
| "collect (Inl e # rs) = Inl e"
| "collect (Inr x # rs) = (case collect rs of Inl e \<Rightarrow> Inl e | Inr xs \<Rightarrow> Inr (x # xs))"

text \<open>
  \<^verbatim>\<open>df.to_dict(orient="records")\<close>: per row, \<^verbatim>\<open>dict(zip(columns, row))\<close>; of two columns
  under one label the later one stays.
\<close>

definition to_dict_records :: "frame \<Rightarrow> pyexc + pydict list" where
  "to_dict_records f =
     collect (map (\<lambda>i. dict_of_pairs (map (\<lambda>(l, cs). (l, cs ! i)) (cols f)))
                  [0..<length (index f)])"

section \<open>Reference resolver\<close>

definition ref_default :: pydict where
  "ref_default =
     [(PStr ''replied_to'', PStr ''''), (PStr ''quoted'', PStr ''''), (PStr ''retweeted'', PStr '''')]"

text \<open>The body of the \<^verbatim>\<open>try\<close> of \<^verbatim>\<open>parse_ref\<close>; \<^verbatim>\<open>x[0]\<close> raises on the empty list.\<close>

definition parse_ref_try :: "pandas \<Rightarrow> pyval \<Rightarrow> pyexc + pydict" where
  "parse_ref_try pd t =
     (let a = ref_default in
      case DataFrame pd t of
        Inl e \<Rightarrow> Inl e
      | Inr x \<Rightarrow>
         (case set_index (PStr ''type'') x of
            Inl e \<Rightarrow> Inl e
          | Inr x \<Rightarrow>
             (let x = transpose_frame x;
                  x = reset_index_drop x
              in case to_dict_records x of
                   Inl e \<Rightarrow> Inl e
                 | Inr x \<Rightarrow>
                    (case x of
                       [] \<Rightarrow> Inl IndexError
                     | r # _ \<Rightarrow> Inr (dict_update a r)))))"

text \<open>The bare \<^verbatim>\<open>except\<close> turns every exception of the body into the default record.\<close>

definition parse_ref :: "pandas \<Rightarrow> pyval \<Rightarrow> pyexc + pydict" where
  "parse_ref pd t =
     (case parse_ref_try pd t of
        Inr a \<Rightarrow> Inr a
      | Inl _ \<Rightarrow> Inr ref_default)"

text \<open>
  A reference entry as the API sends it: an object of exactly the two keys \<^verbatim>\<open>type\<close> and
  \<^verbatim>\<open>id\<close>, in either order, both strings.
\<close>

definition ref_pair :: "pydict \<Rightarrow> string \<times> string \<Rightarrow> bool" where
  "ref_pair d r \<longleftrightarrow>
     d = [(PStr ''type'', PStr (fst r)), (PStr ''id'', PStr (snd r))]
     \<or> d = [(PStr ''id'', PStr (snd r)), (PStr ''type'', PStr (fst r))]"

text \<open>
  The cells of the column of a key in the frame of a list of objects, and an object whose
  values are all strings. A reference list as pairs of type and id: its cells in the
  \<^verbatim>\<open>type\<close> and \<^verbatim>\<open>id\<close> columns, and the id of the last entry of a type (the empty string
  if there is none).
\<close>

definition cells_of :: "pydict list \<Rightarrow> pyval \<Rightarrow> pyval list" where
  "cells_of ds k = map (\<lambda>d. case map_of d k of None \<Rightarrow> PNaN | Some v \<Rightarrow> v) ds"

fun is_str :: "pyval \<Rightarrow> bool" where
  "is_str (PStr s) = True"
| "is_str _ = False"

definition string_object :: "pydict \<Rightarrow> bool" where
  "string_object d \<longleftrightarrow> list_all (\<lambda>(k, v). is_str v) d"

definition types_of :: "(string \<times> string) list \<Rightarrow> pyval list" where
  "types_of refs = map (\<lambda>r. PStr (fst r)) refs"

definition ids_of :: "(string \<times> string) list \<Rightarrow> pyval list" where
  "ids_of refs = map (\<lambda>r. PStr (snd r)) refs"

definition field_of :: "(string \<times> string) list \<Rightarrow> string \<Rightarrow> pyval" where
  "field_of refs ty = (case map_of (rev refs) ty of None \<Rightarrow> PStr '''' | Some i \<Rightarrow> PStr i)"

text \<open>
  An instance of the parameter, for evaluating the functions on concrete input. It is
  never consulted on the inputs evaluated below.
\<close>

definition pandas_raising :: pandas where
  "pandas_raising =
     \<lparr>DataFrame_other = (\<lambda>v. Inl ValueError), apply_Series_other = (\<lambda>i c. Inl ValueError),
      concat_columns_other = (\<lambda>fs. Inl ValueError), concat_rows_other = (\<lambda>fs. Inl ValueError)\<rparr>"

section \<open>Entity extractors\<close>

text \<open>
  \<^verbatim>\<open>series.apply(pd.Series)\<close> on a column of objects: one row per cell over the column's
  index, one column per key.
\<close>

definition apply_Series :: "pandas \<Rightarrow> pyval list \<Rightarrow> pyval list \<Rightarrow> pyexc + frame" where
  "apply_Series pd idx cells =
     (case the_dicts cells of
        Some (d # ds) \<Rightarrow> Inr ((frame_of_dicts (d # ds))\<lparr>index := idx\<rparr>)
      | _ \<Rightarrow> apply_Series_other pd idx cells)"

text \<open>
  \<^verbatim>\<open>pd.concat(frames, axis=1)\<close> of frames over one index: their columns side by side.
  Without frames it raises \<^verbatim>\<open>ValueError\<close>.
\<close>

definition concat_columns :: "pandas \<Rightarrow> frame list \<Rightarrow> pyexc + frame" where
  "concat_columns pd fs =
     (case fs of
        [] \<Rightarrow> Inl ValueError
      | f # rest \<Rightarrow>
          if list_all (\<lambda>f'. index f' = index f) rest
          then Inr \<lparr>index = index f, cols = concat (map cols fs)\<rparr>
          else concat_columns_other pd fs)"

text \<open>
  The body of the \<^verbatim>\<open>try\<close> of \<^verbatim>\<open>parse_data\<close>, and the function: only \<^verbatim>\<open>KeyError\<close> is
  caught, and the frame returned then is the one built on the first line.
\<close>

definition parse_data_try :: "pandas \<Rightarrow> frame \<Rightarrow> frame \<Rightarrow> pyexc + frame" where
  "parse_data_try pd df metrics =
     (case column df (PStr ''referenced_tweets'') of
        Inl e \<Rightarrow> Inl e
      | Inr ts \<Rightarrow>
         (case collect (map (parse_ref pd) ts) of
            Inl e \<Rightarrow> Inl e
          | Inr ref1 \<Rightarrow>
             (case DataFrame pd (PList (map PDict ref1)) of
                Inl e \<Rightarrow> Inl e
              | Inr ref2 \<Rightarrow> concat_columns pd [df, metrics, ref2])))"

definition parse_data :: "pandas \<Rightarrow> pyval \<Rightarrow> pyexc + frame" where
  "parse_data pd data =
     (case DataFrame pd data of
        Inl e \<Rightarrow> Inl e
      | Inr df \<Rightarrow>
         (case column df (PStr ''public_metrics'') of
            Inl e \<Rightarrow> Inl e
          | Inr cells \<Rightarrow>
             (case apply_Series pd (index df) cells of
                Inl e \<Rightarrow> Inl e
              | Inr metrics \<Rightarrow>
                 (case parse_data_try pd df metrics of
                    Inr df' \<Rightarrow> Inr df'
                  | Inl e \<Rightarrow> if e = KeyError then Inr df else Inl e))))"

text \<open>
  Log records: the level and the message, a message being its template and the values
  put into it. Elapsed time is not modelled.
\<close>

datatype level = INFO | WARNING

datatype message =
    NoUsers "string option"
  | NoMedia "string option"
  | FilesToProcess nat
  | NoReferenced string
  | CannotParse string pyexc
  | CannotLoad string pyexc
  | Iter nat
  | CannotConcat string nat
  | Saved string string
  | CannotSave string string

type_synonym log_entry = "level \<times> message"

text \<open>
  \<^verbatim>\<open>parse_users\<close> and \<^verbatim>\<open>parse_media\<close> take the logger as their second positional
  parameter; the model returns what they log beside their result.
\<close>

definition parse_users :: "pandas \<Rightarrow> pyval \<Rightarrow> string option \<Rightarrow> (pyexc + frame) \<times> log_entry list" where
  "parse_users pd response file =
     (case (case subscript response (PStr ''includes'') of
              Inl e \<Rightarrow> Inl e
            | Inr inc \<Rightarrow> subscript inc (PStr ''users'')) of
        Inl e \<Rightarrow> if e = KeyError then (Inr empty_frame, [(INFO, NoUsers file)]) else (Inl e, [])
      | Inr data \<Rightarrow>
         (case DataFrame pd data of
            Inl e \<Rightarrow> (Inl e, [])
          | Inr df \<Rightarrow>
             (case column df (PStr ''public_metrics'') of
                Inl e \<Rightarrow> (Inl e, [])
              | Inr cells \<Rightarrow>
                 (case apply_Series pd (index df) cells of
                    Inl e \<Rightarrow> (Inl e, [])
                  | Inr metrics \<Rightarrow> (concat_columns pd [df, metrics], [])))))"

definition parse_media :: "pandas \<Rightarrow> pyval \<Rightarrow> string option \<Rightarrow> (pyexc + frame) \<times> log_entry list" where
  "parse_media pd response file =
     (case (case subscript response (PStr ''includes'') of
              Inl e \<Rightarrow> Inl e
            | Inr inc \<Rightarrow> subscript inc (PStr ''media'')) of
        Inl e \<Rightarrow> if e = KeyError then (Inr empty_frame, [(INFO, NoMedia file)]) else (Inl e, [])
      | Inr data \<Rightarrow> (DataFrame pd data, []))"

text \<open>A batch of one tweet that references nothing.\<close>

definition demo_batch :: pyval where
  "demo_batch =
     PList [PDict [(PStr ''id'', PStr ''t1''), (PStr ''author_id'', PStr ''u1''),
                   (PStr ''public_metrics'',
                      PDict [(PStr ''retweet_count'', PInt 3), (PStr ''like_count'', PInt 5)])]]"

section \<open>Batch aggregator\<close>

text \<open>
  What a run changes: the list objects that hold the accumulated frames (by address, so
  that a callee is seen to mutate its argument or not), the list of files that could not
  be loaded, the pickles written so far, and the log. The logger passed to
  \<^verbatim>\<open>read_aggregate_pickle\<close> and the \<^verbatim>\<open>logger\<close> that \<^verbatim>\<open>concat_and_pickle\<close> reads from the
  module's namespace write to the one log.
\<close>

record run_state =
  heap :: "nat \<Rightarrow> frame list"
  not_loaded :: "string list"
  pickles :: "(string \<times> frame) list"
  log :: "log_entry list"

definition all_tweets :: nat where "all_tweets = 0"
definition all_users :: nat where "all_users = 1"
definition all_media :: nat where "all_media = 2"
definition all_ref :: nat where "all_ref = 3"


text \<open>
  The file system as the run meets it: the names \<^verbatim>\<open>os.listdir\<close> returns, what opening
  and \<^verbatim>\<open>json.load\<close>-ing a path gives, and whether \<^verbatim>\<open>to_pickle\<close> of a frame to a path raises.
\<close>

record world =
  listdir :: "string list"
  json_load :: "string \<Rightarrow> pyexc + pyval"
  to_pickle_raises :: "string \<Rightarrow> frame \<Rightarrow> bool"

text \<open>\<^verbatim>\<open>os.path.join\<close> of two parts, and \<^verbatim>\<open>str\<close> of a natural number.\<close>

definition osp_join :: "string \<Rightarrow> string \<Rightarrow> string" where
  "osp_join a b =
     (if b \<noteq> [] \<and> hd b = CHR ''/'' then b
      else if a = [] \<or> last a = CHR ''/'' then a @ b
      else a @ ''/'' @ b)"



text \<open>
  \<^verbatim>\<open>pd.concat(df_list)\<close>: the rows of the frames one after the other, over the union of
  their columns, \<^verbatim>\<open>NaN\<close> where a frame lacks a column. The empty list raises \<^verbatim>\<open>ValueError\<close>.
\<close>

definition labels_union :: "frame list \<Rightarrow> pyval list" where
  "labels_union fs = foldl add_key [] (concat (map (\<lambda>f. map fst (cols f)) fs))"

definition concat_rows :: "pandas \<Rightarrow> frame list \<Rightarrow> pyexc + frame" where
  "concat_rows pd fs =
     (if fs = [] then Inl ValueError
      else if list_all (\<lambda>f. distinct (map fst (cols f))) fs then
        Inr \<lparr>index = concat (map index fs),
             cols = map (\<lambda>k. (k, concat (map (\<lambda>f. case map_of (cols f) k of
                                                       Some cs \<Rightarrow> cs
                                                     | None \<Rightarrow> replicate (length (index f)) PNaN) fs)))
                        (labels_union fs)\<rparr>
      else concat_rows_other pd fs)"

text \<open>
  \<^verbatim>\<open>df.replace(to_replace=[r"^\s*$", None], value=np.nan, regex=True)\<close>: a cell that is an
  empty or all-whitespace string, or \<^verbatim>\<open>None\<close>, becomes \<^verbatim>\<open>NaN\<close>. A string is the UTF-8
  encoding of the Python string; the whitespace of \<^verbatim>\<open>\s\<close> is U+0009 to U+000D, U+001C to
  U+0020, U+0085, U+00A0, U+1680, U+2000 to U+200A, U+2028, U+2029, U+202F, U+205F and
  U+3000.
\<close>

definition is_space :: "char \<Rightarrow> bool" where
  "is_space c \<longleftrightarrow>
     c \<in> set [CHR '' '', CHR 0x09, CHR 0x0A, CHR 0x0B, CHR 0x0C, CHR 0x0D,
              CHR 0x1C, CHR 0x1D, CHR 0x1E, CHR 0x1F]"

definition is_space2 :: "char \<Rightarrow> char \<Rightarrow> bool" where
  "is_space2 a b \<longleftrightarrow> a = CHR 0xC2 \<and> (b = CHR 0x85 \<or> b = CHR 0xA0)"

definition is_space3 :: "char \<Rightarrow> char \<Rightarrow> char \<Rightarrow> bool" where
  "is_space3 a b c \<longleftrightarrow>
     (a = CHR 0xE1 \<and> b = CHR 0x9A \<and> c = CHR 0x80)
     \<or> (a = CHR 0xE2 \<and> b = CHR 0x80
         \<and> c \<in> set [CHR 0x80, CHR 0x81, CHR 0x82, CHR 0x83, CHR 0x84, CHR 0x85, CHR 0x86,
                      CHR 0x87, CHR 0x88, CHR 0x89, CHR 0x8A, CHR 0xA8, CHR 0xA9, CHR 0xAF])
     \<or> (a = CHR 0xE2 \<and> b = CHR 0x81 \<and> c = CHR 0x9F)
     \<or> (a = CHR 0xE3 \<and> b = CHR 0x80 \<and> c = CHR 0x80)"

fun all_space :: "string \<Rightarrow> bool" where
  "all_space [] = True"
| "all_space [a] = is_space a"
| "all_space [a, b] = ((is_space a \<and> is_space b) \<or> is_space2 a b)"
| "all_space (a # b # c # cs) =
     (if is_space a then all_space (b # c # cs)
      else if is_space2 a b then all_space (c # cs)
      else is_space3 a b c \<and> all_space cs)"

fun cleanup_cell :: "pyval \<Rightarrow> pyval" where
  "cleanup_cell PNone = PNaN"
| "cleanup_cell (PStr s) = (if all_space s then PNaN else PStr s)"
| "cleanup_cell v = v"

definition replace_nulls :: "frame \<Rightarrow> frame" where
  "replace_nulls f = f\<lparr>cols := map (\<lambda>(l, cs). (l, map cleanup_cell cs)) (cols f)\<rparr>"

text \<open>
  A call of a method of the module-level \<^verbatim>\<open>logger\<close>: reading the name raises \<^verbatim>\<open>NameError\<close>
  when the namespace does not hold it.
\<close>

definition global_logger :: "globals \<Rightarrow> log_entry \<Rightarrow> run_state \<Rightarrow> pyexc option \<times> run_state" where
  "global_logger g entry st =
     (if logger_bound g then (None, st\<lparr>log := log st @ [entry]\<rparr>) else (Some NameError, st))"

text \<open>
  \<^verbatim>\<open>concat_and_pickle\<close>. The first handler logs and returns. In the second \<^verbatim>\<open>try\<close> the
  pickle is written and then the success is logged; the bare \<^verbatim>\<open>except\<close> catches what either
  raises. The result is the exception that leaves the function, if any, and the state.
  (\<^verbatim>\<open>pickle_protocol\<close> is handed to \<^verbatim>\<open>to_pickle\<close> and has no other use.)
\<close>

definition concat_and_pickle ::
  "globals \<Rightarrow> world \<Rightarrow> pandas \<Rightarrow> nat \<Rightarrow> string \<Rightarrow> string \<Rightarrow> run_state \<Rightarrow> pyexc option \<times> run_state" where
  "concat_and_pickle g w pd df_list df_name pickle_path st =
     (case concat_rows pd (heap st df_list) of
        Inl _ \<Rightarrow>
          global_logger g (WARNING, CannotConcat df_name (length (heap st df_list))) st
      | Inr df \<Rightarrow>
         (let df = replace_nulls df in
          if to_pickle_raises w pickle_path df then
            global_logger g (WARNING, CannotSave df_name pickle_path) st
          else
            (let st = st\<lparr>pickles := pickles st @ [(pickle_path, df)]\<rparr> in
             case global_logger g (INFO, Saved df_name pickle_path) st of
               (None, st) \<Rightarrow> (None, st)
             | (Some _, st) \<Rightarrow> global_logger g (WARNING, CannotSave df_name pickle_path) st)))"

text \<open>\<^verbatim>\<open>lst.append(x)\<close> on the list object at an address.\<close>

definition list_append :: "nat \<Rightarrow> frame \<Rightarrow> run_state \<Rightarrow> run_state" where
  "list_append a x st = st\<lparr>heap := (heap st)(a := heap st a @ [x])\<rparr>"

definition logger_call :: "log_entry \<Rightarrow> run_state \<Rightarrow> run_state" where
  "logger_call entry st = st\<lparr>log := log st @ [entry]\<rparr>"

text \<open>
  \<^verbatim>\<open>parse_users(res)\<close> and \<^verbatim>\<open>parse_media(res)\<close>: a call with one argument of a function
  with two required positional parameters raises \<^verbatim>\<open>TypeError\<close> before the body runs.
\<close>

definition call_without_logger :: "(pyval \<Rightarrow> string option \<Rightarrow> 'r) \<Rightarrow> pyval \<Rightarrow> pyexc + 'r" where
  "call_without_logger f response = Inl TypeError"

text \<open>
  The inner \<^verbatim>\<open>try\<close> of the loop body, from its last statement to its first: the nested
  \<^verbatim>\<open>try\<close> around the referenced tweets, whose handler takes \<^verbatim>\<open>KeyError\<close> only; the media;
  the users; the tweets. An exception that is not handled inside goes to the handler of
  the inner \<^verbatim>\<open>try\<close>, which logs a warning; what was appended before stays appended.
\<close>

definition extract_ref :: "pandas \<Rightarrow> string \<Rightarrow> pyval \<Rightarrow> run_state \<Rightarrow> pyexc option \<times> run_state" where
  "extract_ref pd file res st =
     (case (case subscript res (PStr ''includes'') of
              Inl e \<Rightarrow> Inl e
            | Inr inc \<Rightarrow>
               (case subscript inc (PStr ''tweets'') of
                  Inl e \<Rightarrow> Inl e
                | Inr data \<Rightarrow> parse_data pd data)) of
        Inr ref \<Rightarrow> (None, list_append all_ref ref st)
      | Inl e \<Rightarrow>
          if e = KeyError then (None, logger_call (INFO, NoReferenced file) st) else (Some e, st))"

definition extract_media :: "pandas \<Rightarrow> string \<Rightarrow> pyval \<Rightarrow> run_state \<Rightarrow> pyexc option \<times> run_state" where
  "extract_media pd file res st =
     (case call_without_logger (parse_media pd) res of
        Inl e \<Rightarrow> (Some e, st)
      | Inr (r, entries) \<Rightarrow>
         (let st = st\<lparr>log := log st @ entries\<rparr> in
          case r of
            Inl e \<Rightarrow> (Some e, st)
          | Inr media \<Rightarrow> extract_ref pd file res (list_append all_media media st)))"

definition extract_users :: "pandas \<Rightarrow> string \<Rightarrow> pyval \<Rightarrow> run_state \<Rightarrow> pyexc option \<times> run_state" where
  "extract_users pd file res st =
     (case call_without_logger (parse_users pd) res of
        Inl e \<Rightarrow> (Some e, st)
      | Inr (r, entries) \<Rightarrow>
         (let st = st\<lparr>log := log st @ entries\<rparr> in
          case r of
            Inl e \<Rightarrow> (Some e, st)
          | Inr users \<Rightarrow> extract_media pd file res (list_append all_users users st)))"

definition extract_tweets :: "pandas \<Rightarrow> string \<Rightarrow> pyval \<Rightarrow> run_state \<Rightarrow> run_state" where
  "extract_tweets pd file res st =
     (case (case subscript res (PStr ''data'') of
              Inl e \<Rightarrow> Inl e
            | Inr data \<Rightarrow> parse_data pd data) of
        Inl e \<Rightarrow> logger_call (WARNING, CannotParse file e) st
      | Inr tweets \<Rightarrow>
         (case extract_users pd file res (list_append all_tweets tweets st) of
            (None, st') \<Rightarrow> st'
          | (Some e, st') \<Rightarrow> logger_call (WARNING, CannotParse file e) st'))"

text \<open>
  The outer \<^verbatim>\<open>try\<close> of the loop body: a file that cannot be opened or decoded is logged
  and recorded, and nothing is extracted from it.
\<close>

definition process_file :: "world \<Rightarrow> pandas \<Rightarrow> string \<Rightarrow> string \<Rightarrow> run_state \<Rightarrow> run_state" where
  "process_file w pd cache_dir file st =
     (case json_load w (osp_join cache_dir file) of
        Inl e \<Rightarrow>
          (logger_call (WARNING, CannotLoad file e) st)
            \<lparr>not_loaded := not_loaded st @ [osp_join cache_dir file]\<rparr>
      | Inr res \<Rightarrow> extract_tweets pd file res st)"











section \<open>Properties of the edge builders\<close>

lemma mentions_loop_all:
  "map (\<lambda>m. subscript m (PStr ''id'')) ms = map Inr ids \<Longrightarrow>
   mentions_loop t a ms acc = Inr (acc @ map (\<lambda>i. edge a i t (RType_value MENTION)) ids)"
proof (induction ms arbitrary: acc ids)
  case Nil
  then show ?case by simp
next
  case (Cons m ms)
  then obtain i ids' where ids: "ids = i # ids'" by (cases ids) auto
  with Cons.prems have h: "subscript m (PStr ''id'') = Inr i"
    and t: "map (\<lambda>m. subscript m (PStr ''id'')) ms = map Inr ids'" by auto
  show ?case using Cons.IH[OF t] h ids by simp
qed

text \<open>
  C9. An entities dictionary without a \<^verbatim>\<open>mentions\<close> key gives the empty list and no
  error. One whose \<^verbatim>\<open>mentions\<close> is a list of \<open>N\<close> entries, each with an \<^verbatim>\<open>id\<close>, gives
  exactly \<open>N\<close> edges, in order: the edge of a mention has \<^verbatim>\<open>src_user_id\<close> the author,
  \<^verbatim>\<open>tar_user_id\<close> the mention's id, the given tweet id and \<^verbatim>\<open>rtype\<close> 4 (MENTION).
\<close>

theorem parse_mentions_edges:
  "(PStr ''mentions'' \<notin> set (map fst entities) \<longrightarrow>
      parse_mentions tweet_id author_id (PDict entities) = Inr [])
   \<and> (map_of entities (PStr ''mentions'') = Some (PList ms)
       \<and> map (\<lambda>m. subscript m (PStr ''id'')) ms = map Inr ids \<longrightarrow>
      parse_mentions tweet_id author_id (PDict entities)
        = Inr (map (\<lambda>i. [(PStr ''src_user_id'', author_id), (PStr ''tar_user_id'', i),
                         (PStr ''tweet_id'', tweet_id), (PStr ''rtype'', PInt 4)]) ids)
      \<and> length ids = length ms)"
proof (intro conjI impI)
  assume "PStr ''mentions'' \<notin> set (map fst entities)"
  then show "parse_mentions tweet_id author_id (PDict entities) = Inr []" by simp
next
  assume h: "map_of entities (PStr ''mentions'') = Some (PList ms)
    \<and> map (\<lambda>m. subscript m (PStr ''id'')) ms = map Inr ids"
  then have "PStr ''mentions'' \<in> set (map fst entities)"
    by (metis map_of_eq_None_iff option.distinct(1) set_map)
  moreover have "dict_get entities (PStr ''mentions'') = Inr (PList ms)"
    using h by (simp add: dict_get_def)
  ultimately show "parse_mentions tweet_id author_id (PDict entities)
        = Inr (map (\<lambda>i. [(PStr ''src_user_id'', author_id), (PStr ''tar_user_id'', i),
                         (PStr ''tweet_id'', tweet_id), (PStr ''rtype'', PInt 4)]) ids)"
    using h mentions_loop_all[of ms ids tweet_id author_id "[]"] by (simp add: edge_def)
next
  assume "map_of entities (PStr ''mentions'') = Some (PList ms)
    \<and> map (\<lambda>m. subscript m (PStr ''id'')) ms = map Inr ids"
  then have "length (map (\<lambda>m. subscript m (PStr ''id'')) ms) = length (map Inr ids :: (pyexc + pyval) list)"
    by simp
  then show "length ids = length ms" by simp
qed

theorem parse_mentions_edges_witness:
  "parse_mentions (PStr ''t1'') (PStr ''u1'') (PDict [(PStr ''urls'', PList [])]) = Inr []
   \<and> parse_mentions (PStr ''t1'') (PStr ''u1'')
        (PDict [(PStr ''mentions'',
           PList [PDict [(PStr ''username'', PStr ''a''), (PStr ''id'', PStr ''u7'')],
                  PDict [(PStr ''id'', PStr ''u8'')]])])
      = Inr [[(PStr ''src_user_id'', PStr ''u1''), (PStr ''tar_user_id'', PStr ''u7''),
              (PStr ''tweet_id'', PStr ''t1''), (PStr ''rtype'', PInt 4)],
             [(PStr ''src_user_id'', PStr ''u1''), (PStr ''tar_user_id'', PStr ''u8''),
              (PStr ''tweet_id'', PStr ''t1''), (PStr ''rtype'', PInt 4)]]"
  using parse_mentions_edges[of "[(PStr ''urls'', PList [])]" "PStr ''t1''" "PStr ''u1''" "[]" "[]"]
    parse_mentions_edges[of "[(PStr ''mentions'',
           PList [PDict [(PStr ''username'', PStr ''a''), (PStr ''id'', PStr ''u7'')],
                  PDict [(PStr ''id'', PStr ''u8'')]])]" "PStr ''t1''" "PStr ''u1''"
           "[PDict [(PStr ''username'', PStr ''a''), (PStr ''id'', PStr ''u7'')],
             PDict [(PStr ''id'', PStr ''u8'')]]" "[PStr ''u7'', PStr ''u8'']"]
  by (simp add: dict_get_def)

lemma zip_hashable:
  "list_all hashable ks \<Longrightarrow> list_all (\<lambda>(k, v). hashable k) (zip ks vs)"
  by (induction ks arbitrary: vs) (auto simp: zip_Cons1 split: list.splits)

lemma map_of_filter_neq:
  "k \<noteq> k' \<Longrightarrow> map_of (filter (\<lambda>(l, _). l \<noteq> k') xs) k = map_of xs k"
  by (induction xs) auto

lemma author_dict_total:
  assumes "indexable f"
  shows "\<exists>d. author_dict f = Inr d"
proof -
  from assms obtain ids where ids: "map_of (cols f) (PStr ''id'') = Some ids" "list_all hashable ids"
    by (auto simp: indexable_def split: option.splits)
  from assms have "map_of (cols f) (PStr ''author_id'') \<noteq> None"
    unfolding indexable_def by (simp add: map_of_eq_None_iff)
  then obtain cs where cs: "map_of (cols f) (PStr ''author_id'') = Some cs" by blast
  have cs': "map_of (filter (\<lambda>(l, _). l \<noteq> PStr ''id'') (cols f)) (PStr ''author_id'') = Some cs"
    using cs by (simp add: map_of_filter_neq)
  show ?thesis using ids cs'
    by (simp add: author_dict_def set_index_def column_def series_to_dict_def dict_of_pairs_def zip_hashable)
qed

lemma demo_tweets_dict:
  "author_dict demo_tweets = Inr [(PStr ''t1'', PStr ''u1''), (PStr ''t2'', PStr ''u2'')]"
  by (simp add: author_dict_def demo_tweets_def set_index_def column_def series_to_dict_def
      dict_of_pairs_def dict_update_def)

lemma demo_referenced_dict:
  "author_dict demo_referenced = Inr [(PStr ''t0'', PStr ''u0'')]"
  by (simp add: author_dict_def demo_referenced_def set_index_def column_def series_to_dict_def
      dict_of_pairs_def dict_update_def)

lemma author_dict_empty_frame: "author_dict empty_frame = Inl KeyError"
  by (simp add: author_dict_def empty_frame_def set_index_def)

text \<open>
  With \<^verbatim>\<open>utils\<close> bound, a target found in the referenced table gives the edge with that
  table's author, whatever the main table holds. With \<^verbatim>\<open>utils\<close> unbound, building the
  display raises \<^verbatim>\<open>NameError\<close> inside both \<^verbatim>\<open>try\<close> blocks and the builders return the empty
  dictionary for every target.
\<close>

lemma parse_retweets_bound:
  assumes "utils_bound g" "author_dict tweet_df = Inr td" "author_dict referenced_df = Inr rd"
    and "dict_get rd x = Inr a"
  shows "parse_retweets g t u x tweet_df referenced_df = Inr (edge a u t 1)
    \<and> parse_quotes g t u x tweet_df referenced_df = Inr (edge a u t 2)"
  using assms
  by (simp add: parse_retweets_def parse_quotes_def resolve_edge_def lookup_edge_def
      utils_RType_value_def)

lemma parse_retweets_unbound:
  assumes "\<not> utils_bound g" "author_dict tweet_df = Inr td" "author_dict referenced_df = Inr rd"
  shows "parse_retweets g t u x tweet_df referenced_df = Inr []
    \<and> parse_quotes g t u x tweet_df referenced_df = Inr []"
  using assms
  by (simp add: parse_retweets_def parse_quotes_def resolve_edge_def lookup_edge_def
      utils_RType_value_def split: sum.splits)

text \<open>
  C1. The claim: a target id that is a key of the referenced table's index makes
  \<^verbatim>\<open>parse_retweets\<close> (\<^verbatim>\<open>parse_quotes\<close>) emit the edge with the referenced table's author and
  \<^verbatim>\<open>rtype\<close> 1 (2). In the module as written the target \<^verbatim>\<open>t0\<close> is a key of the referenced
  table's index, with author \<^verbatim>\<open>u0\<close>, and both builders return the empty dictionary: the
  display reads \<^verbatim>\<open>utils.RType\<close>, a name the module never binds, where \<^verbatim>\<open>parse_replies\<close> and
  \<^verbatim>\<open>parse_mentions\<close> read \<^verbatim>\<open>RType\<close>.
\<close>

theorem parse_retweets_unbound_utils:
  "author_dict demo_referenced = Inr [(PStr ''t0'', PStr ''u0'')]
   \<and> dict_get [(PStr ''t0'', PStr ''u0'')] (PStr ''t0'') = Inr (PStr ''u0'')
   \<and> parse_retweets module_globals (PStr ''t2'') (PStr ''u2'') (PStr ''t0'')
        demo_tweets demo_referenced = Inr []
   \<and> parse_quotes module_globals (PStr ''t2'') (PStr ''u2'') (PStr ''t0'')
        demo_tweets demo_referenced = Inr []"
  by (simp add: parse_retweets_def parse_quotes_def resolve_edge_def demo_tweets_dict
      demo_referenced_dict lookup_edge_def utils_RType_value_def module_globals_def dict_get_def)

text \<open>
  C2, as stated, fails: the two index dictionaries are built before the first \<^verbatim>\<open>try\<close>, so
  a referenced table with no \<^verbatim>\<open>id\<close> column (the empty table \<^verbatim>\<open>pd.DataFrame()\<close>) makes both
  builders raise \<^verbatim>\<open>KeyError\<close>.
\<close>

theorem parse_retweets_raises_on_empty_table:
  "parse_retweets all_bound (PStr ''t2'') (PStr ''u2'') (PStr ''t1'') demo_tweets empty_frame
     = Inl KeyError
   \<and> parse_quotes all_bound (PStr ''t2'') (PStr ''u2'') (PStr ''t1'') demo_tweets empty_frame
     = Inl KeyError"
  by (simp add: parse_retweets_def parse_quotes_def resolve_edge_def demo_tweets_dict
      author_dict_empty_frame)

lemma resolve_edge_fallback:
  assumes "indexable tweet_df" and "indexable referenced_df"
  shows "\<exists>td rd. author_dict tweet_df = Inr td \<and> author_dict referenced_df = Inr rd
    \<and> (\<exists>d. resolve_edge g r t u x tweet_df referenced_df = Inr d)
    \<and> ((\<exists>e. dict_get rd x = Inl e) \<longrightarrow>
         resolve_edge g r t u x tweet_df referenced_df =
           Inr (case lookup_edge g r td x u t of Inr d \<Rightarrow> d | Inl _ \<Rightarrow> []))
    \<and> ((\<exists>e. dict_get rd x = Inl e) \<and> (\<exists>e. dict_get td x = Inl e) \<longrightarrow>
         resolve_edge g r t u x tweet_df referenced_df = Inr [])"
proof -
  from author_dict_total[OF assms(1)] obtain td where td: "author_dict tweet_df = Inr td" ..
  from author_dict_total[OF assms(2)] obtain rd where rd: "author_dict referenced_df = Inr rd" ..
  have "\<exists>d. resolve_edge g r t u x tweet_df referenced_df = Inr d"
    using td rd by (simp add: resolve_edge_def split: sum.splits)
  moreover have "(\<exists>e. dict_get rd x = Inl e) \<longrightarrow>
         resolve_edge g r t u x tweet_df referenced_df =
           Inr (case lookup_edge g r td x u t of Inr d \<Rightarrow> d | Inl _ \<Rightarrow> [])"
    using td rd by (auto simp: resolve_edge_def lookup_edge_def split: sum.splits)
  moreover have "(\<exists>e. dict_get rd x = Inl e) \<and> (\<exists>e. dict_get td x = Inl e) \<longrightarrow>
         resolve_edge g r t u x tweet_df referenced_df = Inr []"
    using td rd by (auto simp: resolve_edge_def lookup_edge_def split: sum.splits)
  ultimately show ?thesis using td rd by blast
qed

text \<open>
  C2, amended. For tables that each have an \<^verbatim>\<open>id\<close> column (of hashable cells) and an
  \<^verbatim>\<open>author_id\<close> column, whatever the namespace and the target: both index dictionaries are
  built and neither builder raises; when the lookup in the referenced table's index fails
  (a missing key, as in a table with no rows, or an unhashable target), the result is that
  of the lookup in the main table's index, the empty dictionary if that fails too.
\<close>

theorem parse_retweets_fallback:
  assumes "indexable tweet_df" and "indexable referenced_df"
  shows "\<exists>td rd. author_dict tweet_df = Inr td \<and> author_dict referenced_df = Inr rd
    \<and> (\<exists>d. parse_retweets g t u x tweet_df referenced_df = Inr d)
    \<and> (\<exists>d. parse_quotes g t u x tweet_df referenced_df = Inr d)
    \<and> ((\<exists>e. dict_get rd x = Inl e) \<longrightarrow>
         parse_retweets g t u x tweet_df referenced_df =
           Inr (case lookup_edge g RETWEET td x u t of Inr d \<Rightarrow> d | Inl _ \<Rightarrow> [])
         \<and> parse_quotes g t u x tweet_df referenced_df =
           Inr (case lookup_edge g QUOTE td x u t of Inr d \<Rightarrow> d | Inl _ \<Rightarrow> []))
    \<and> ((\<exists>e. dict_get rd x = Inl e) \<and> (\<exists>e. dict_get td x = Inl e) \<longrightarrow>
         parse_retweets g t u x tweet_df referenced_df = Inr []
         \<and> parse_quotes g t u x tweet_df referenced_df = Inr [])"
proof -
  from resolve_edge_fallback[OF assms, of g RETWEET t u x]
  obtain td rd where a: "author_dict tweet_df = Inr td" "author_dict referenced_df = Inr rd"
    and r1: "\<exists>d. resolve_edge g RETWEET t u x tweet_df referenced_df = Inr d"
    and r2: "(\<exists>e. dict_get rd x = Inl e) \<longrightarrow>
         resolve_edge g RETWEET t u x tweet_df referenced_df =
           Inr (case lookup_edge g RETWEET td x u t of Inr d \<Rightarrow> d | Inl _ \<Rightarrow> [])"
    and r3: "(\<exists>e. dict_get rd x = Inl e) \<and> (\<exists>e. dict_get td x = Inl e) \<longrightarrow>
         resolve_edge g RETWEET t u x tweet_df referenced_df = Inr []"
    by blast
  from resolve_edge_fallback[OF assms, of g QUOTE t u x]
  obtain td' rd' where a': "author_dict tweet_df = Inr td'" "author_dict referenced_df = Inr rd'"
    and q1: "\<exists>d. resolve_edge g QUOTE t u x tweet_df referenced_df = Inr d"
    and q2: "(\<exists>e. dict_get rd' x = Inl e) \<longrightarrow>
         resolve_edge g QUOTE t u x tweet_df referenced_df =
           Inr (case lookup_edge g QUOTE td' x u t of Inr d \<Rightarrow> d | Inl _ \<Rightarrow> [])"
    and q3: "(\<exists>e. dict_get rd' x = Inl e) \<and> (\<exists>e. dict_get td' x = Inl e) \<longrightarrow>
         resolve_edge g QUOTE t u x tweet_df referenced_df = Inr []"
    by blast
  from a a' have eq: "td' = td" "rd' = rd" by simp_all
  show ?thesis
    unfolding parse_retweets_def parse_quotes_def
    using a r1 r2 r3 q1 q2[unfolded eq] q3[unfolded eq] by blast
qed

text \<open>
  The main table knows the target \<^verbatim>\<open>t1\<close>, the referenced table does not: with \<^verbatim>\<open>utils\<close>
  bound the edge comes from the main table; a target that neither knows gives the empty
  dictionary.
\<close>

theorem parse_retweets_fallback_witness:
  "indexable demo_tweets \<and> indexable demo_referenced
   \<and> dict_get [(PStr ''t0'', PStr ''u0'')] (PStr ''t1'') = Inl KeyError
   \<and> parse_retweets all_bound (PStr ''t2'') (PStr ''u2'') (PStr ''t1'') demo_tweets demo_referenced
       = Inr (edge (PStr ''u1'') (PStr ''u2'') (PStr ''t2'') 1)
   \<and> parse_quotes all_bound (PStr ''t2'') (PStr ''u2'') (PStr ''t9'') demo_tweets demo_referenced
       = Inr []"
proof -
  have i: "indexable demo_tweets" "indexable demo_referenced"
    by (simp_all add: indexable_def demo_tweets_def demo_referenced_def)
  have k: "dict_get [(PStr ''t0'', PStr ''u0'')] (PStr ''t1'') = Inl KeyError"
    by (simp add: dict_get_def)
  from parse_retweets_fallback[OF i, of all_bound "PStr ''t2''" "PStr ''u2''" "PStr ''t1''"]
  have r: "parse_retweets all_bound (PStr ''t2'') (PStr ''u2'') (PStr ''t1'') demo_tweets demo_referenced
       = Inr (edge (PStr ''u1'') (PStr ''u2'') (PStr ''t2'') 1)"
    by (simp add: demo_tweets_dict demo_referenced_dict dict_get_def lookup_edge_def
        utils_RType_value_def all_bound_def)
  from parse_retweets_fallback[OF i, of all_bound "PStr ''t2''" "PStr ''u2''" "PStr ''t9''"]
  have q: "parse_quotes all_bound (PStr ''t2'') (PStr ''u2'') (PStr ''t9'') demo_tweets demo_referenced
       = Inr []"
    by (simp add: demo_tweets_dict demo_referenced_dict dict_get_def lookup_edge_def)
  show ?thesis using i k r q by simp
qed

section \<open>Properties of the reference resolver\<close>

lemma map_of_dict_set: "map_of (dict_set d k v) = (map_of d)(k \<mapsto> v)"
  by (induction d) (auto simp: fun_eq_iff)

lemma keys_dict_set:
  "map fst (dict_set d k v) = (if k \<in> set (map fst d) then map fst d else map fst d @ [k])"
  by (induction d) force+

lemma dict_update_Cons: "dict_update d ((k, v) # kvs) = dict_update (dict_set d k v) kvs"
  by (simp add: dict_update_def)

lemma dict_update_Nil: "dict_update d [] = d"
  by (simp add: dict_update_def)

lemma map_of_dict_update:
  "map_of (dict_update d kvs) k =
     (case map_of (rev kvs) k of Some v \<Rightarrow> Some v | None \<Rightarrow> map_of d k)"
proof (induction kvs arbitrary: d)
  case Nil
  then show ?case by (simp add: dict_update_Nil)
next
  case (Cons kv kvs)
  obtain k' v' where kv: "kv = (k', v')" by (cases kv)
  show ?case
    by (simp add: kv dict_update_Cons Cons.IH map_of_dict_set map_add_def split: option.splits)
qed

lemma keys_dict_update_within:
  "set (map fst kvs) \<subseteq> set (map fst d) \<Longrightarrow> map fst (dict_update d kvs) = map fst d"
proof (induction kvs arbitrary: d)
  case Nil
  then show ?case by (simp add: dict_update_Nil)
next
  case (Cons kv kvs)
  obtain k' v' where kv: "kv = (k', v')" by (cases kv)
  from Cons.prems have k: "k' \<in> set (map fst d)" by (simp add: kv)
  then have same: "map fst (dict_set d k' v') = map fst d"
    using keys_dict_set[of d k' v'] by simp
  with Cons.prems have "set (map fst kvs) \<subseteq> set (map fst (dict_set d k' v'))" by simp
  from Cons.IH[OF this] show ?case by (simp add: kv dict_update_Cons same)
qed

lemma keys_dict_update_subset:
  "set (map fst (dict_update d kvs)) = set (map fst d) \<union> set (map fst kvs)"
proof (induction kvs arbitrary: d)
  case Nil
  then show ?case by (simp add: dict_update_Nil)
next
  case (Cons kv kvs)
  obtain k' v' where kv: "kv = (k', v')" by (cases kv)
  have "set (map fst (dict_set d k' v')) = insert k' (set (map fst d))"
    by (simp add: keys_dict_set insert_absorb)
  then show ?case
    unfolding kv dict_update_Cons Cons.IH by auto
qed

lemma distinct_dict_set: "distinct (map fst d) \<Longrightarrow> distinct (map fst (dict_set d k v))"
  by (simp add: keys_dict_set)

lemma distinct_dict_update: "distinct (map fst d) \<Longrightarrow> distinct (map fst (dict_update d kvs))"
proof (induction kvs arbitrary: d)
  case Nil
  then show ?case by (simp add: dict_update_Nil)
next
  case (Cons kv kvs)
  obtain k' v' where kv: "kv = (k', v')" by (cases kv)
  show ?case using Cons.IH[OF distinct_dict_set[OF Cons.prems]] by (simp add: kv dict_update_Cons)
qed

lemma map_of_rev_distinct: "distinct (map fst xs) \<Longrightarrow> map_of (rev xs) = map_of xs"
  by (induction xs) (auto simp: fun_eq_iff map_add_def split: option.splits dest: map_of_SomeD
      simp: rev_image_eqI)

text \<open>A dictionary over three distinct keys is determined by its lookups.\<close>

lemma dict_three_keys:
  assumes "map fst d = [k1, k2, k3]" "distinct [k1, k2, k3]"
  shows "d = [(k1, the (map_of d k1)), (k2, the (map_of d k2)), (k3, the (map_of d k3))]"
proof -
  from assms(1) obtain v1 v2 v3 where "d = [(k1, v1), (k2, v2), (k3, v3)]"
    by (auto simp: map_eq_Cons_conv)
  with assms(2) show ?thesis by auto
qed

lemma rectangular_frame_of_dicts: "rectangular (frame_of_dicts ds)"
  by (simp add: rectangular_def frame_of_dicts_def range_index_def list_all_iff)

lemma foldl_add_key_within: "set ks \<subseteq> set acc \<Longrightarrow> foldl add_key acc ks = acc"
  by (induction ks arbitrary: acc) (auto simp: add_key_def)

lemma the_dicts_map_PDict: "the_dicts (map PDict ds) = Some ds"
  by (induction ds) auto

lemma ref_pair_keys:
  "ref_pair d r \<Longrightarrow> set (map fst d) = {PStr ''type'', PStr ''id''}"
  by (auto simp: ref_pair_def)

lemma ref_pair_cells:
  "ref_pair d r \<Longrightarrow> map_of d (PStr ''type'') = Some (PStr (fst r)) \<and> map_of d (PStr ''id'') = Some (PStr (snd r))"
  by (auto simp: ref_pair_def)

lemma ref_pairs_keys_within:
  "list_all2 ref_pair ds refs \<Longrightarrow> set (concat (map (map fst) ds)) \<subseteq> {PStr ''type'', PStr ''id''}"
proof (induction rule: list_all2_induct)
  case Nil
  then show ?case by simp
next
  case (Cons d ds r refs)
  from ref_pair_keys[OF Cons.hyps(1)] Cons.IH show ?case by simp
qed

lemma ref_pairs_keys_union:
  assumes "list_all2 ref_pair (d # ds) (r # refs)"
  shows "keys_union (d # ds) = map fst d"
proof -
  from assms have d: "ref_pair d r" and rest: "list_all2 ref_pair ds refs" by simp_all
  from d have first: "foldl add_key [] (map fst d) = map fst d"
    by (auto simp: ref_pair_def add_key_def)
  from ref_pairs_keys_within[OF rest] ref_pair_keys[OF d]
  have "set (concat (map (map fst) ds)) \<subseteq> set (map fst d)" by simp
  then show ?thesis
    by (simp add: keys_union_def first foldl_add_key_within)
qed

lemma ref_pairs_type_cells:
  "list_all2 ref_pair ds refs \<Longrightarrow>
   map (\<lambda>d. case map_of d (PStr ''type'') of None \<Rightarrow> PNaN | Some v \<Rightarrow> v) ds = types_of refs"
  by (induction rule: list_all2_induct) (auto simp: types_of_def dest: ref_pair_cells)

lemma ref_pairs_id_cells:
  "list_all2 ref_pair ds refs \<Longrightarrow>
   map (\<lambda>d. case map_of d (PStr ''id'') of None \<Rightarrow> PNaN | Some v \<Rightarrow> v) ds = ids_of refs"
  by (induction rule: list_all2_induct) (auto simp: ids_of_def dest: ref_pair_cells)

lemma ref_pairs_keys_union_cases:
  assumes "list_all2 ref_pair ds refs" "ds \<noteq> []"
  shows "keys_union ds = [PStr ''type'', PStr ''id''] \<or> keys_union ds = [PStr ''id'', PStr ''type'']"
proof -
  from assms obtain d ds' r refs' where e: "ds = d # ds'" "refs = r # refs'"
    by (cases ds; cases refs) auto
  with assms have a: "list_all2 ref_pair (d # ds') (r # refs')" by simp
  then have "ref_pair d r" by simp
  then have "map fst d = [PStr ''type'', PStr ''id''] \<or> map fst d = [PStr ''id'', PStr ''type'']"
    by (auto simp: ref_pair_def)
  then show ?thesis unfolding e ref_pairs_keys_union[OF a] .
qed

lemma set_index_first:
  "k' \<noteq> k \<Longrightarrow> set_index k \<lparr>index = i, cols = [(k, a), (k', b)]\<rparr> = Inr \<lparr>index = a, cols = [(k', b)]\<rparr>"
  by (simp add: set_index_def)

lemma set_index_second:
  "k' \<noteq> k \<Longrightarrow> set_index k \<lparr>index = i, cols = [(k', b), (k, a)]\<rparr> = Inr \<lparr>index = a, cols = [(k', b)]\<rparr>"
  by (simp add: set_index_def)

lemma ref_pairs_set_index:
  assumes "list_all2 ref_pair ds refs" "ds \<noteq> []"
  shows "set_index (PStr ''type'') (frame_of_dicts ds)
       = Inr \<lparr>index = types_of refs, cols = [(PStr ''id'', ids_of refs)]\<rparr>"
proof -
  note tc = ref_pairs_type_cells[OF assms(1)] and ic = ref_pairs_id_cells[OF assms(1)]
  have ne: "PStr ''id'' \<noteq> PStr ''type''" by simp
  from ref_pairs_keys_union_cases[OF assms] show ?thesis
  proof
    assume k: "keys_union ds = [PStr ''type'', PStr ''id'']"
    have "frame_of_dicts ds = \<lparr>index = range_index (length ds),
        cols = [(PStr ''type'', types_of refs), (PStr ''id'', ids_of refs)]\<rparr>"
      unfolding frame_of_dicts_def k list.map tc ic ..
    then show ?thesis by (simp only: set_index_first[OF ne])
  next
    assume k: "keys_union ds = [PStr ''id'', PStr ''type'']"
    have "frame_of_dicts ds = \<lparr>index = range_index (length ds),
        cols = [(PStr ''id'', ids_of refs), (PStr ''type'', types_of refs)]\<rparr>"
      unfolding frame_of_dicts_def k list.map tc ic ..
    then show ?thesis by (simp only: set_index_second[OF ne])
  qed
qed

lemma zip_by_index:
  "length xs = length ys \<Longrightarrow> map (\<lambda>i. (xs ! i, ys ! i)) [0..<length xs] = zip xs ys"
  by (rule nth_equalityI) simp_all

lemma ref_pairs_records:
  "to_dict_records (reset_index_drop (transpose_frame
       \<lparr>index = types_of refs, cols = [(PStr ''id'', ids_of refs)]\<rparr>))
     = Inr [dict_update [] (zip (types_of refs) (ids_of refs))]"
proof -
  have len: "length (types_of refs) = length (ids_of refs)"
    by (simp add: types_of_def ids_of_def)
  have "list_all hashable (types_of refs)"
    by (simp add: types_of_def list_all_iff)
  then have h: "list_all (\<lambda>(k, v). hashable k) (zip (types_of refs) (ids_of refs))"
    by (rule zip_hashable)
  have "map (\<lambda>(l, cs). (l, cs ! 0))
          (map (\<lambda>i. (types_of refs ! i, [ids_of refs ! i])) [0..<length (types_of refs)])
        = zip (types_of refs) (ids_of refs)"
    using zip_by_index[OF len] by (simp add: comp_def)
  then show ?thesis
    using h by (simp add: to_dict_records_def reset_index_drop_def transpose_frame_def
        range_index_def dict_of_pairs_def)
qed

lemma parse_ref_try_pairs:
  assumes "list_all2 ref_pair ds refs"
  shows "parse_ref_try pd (PList (map PDict ds)) =
     (if ds = [] then Inl KeyError
      else Inr (dict_update ref_default (dict_update [] (zip (types_of refs) (ids_of refs)))))"
proof (cases "ds = []")
  case True
  then show ?thesis
    by (simp add: parse_ref_try_def frame_of_dicts_def keys_union_def set_index_def)
next
  case False
  have "DataFrame pd (PList (map PDict ds)) = Inr (frame_of_dicts ds)"
    by (simp add: the_dicts_map_PDict)
  then show ?thesis
    unfolding parse_ref_try_def Let_def
    by (simp only: ref_pairs_set_index[OF assms False] ref_pairs_records sum.case list.case False if_False)
qed

lemma zip_types_ids:
  "zip (types_of refs) (ids_of refs) = map (\<lambda>r. (PStr (fst r), PStr (snd r))) refs"
  by (simp add: types_of_def ids_of_def zip_map_map zip_same_conv_map)

lemma map_of_tagged:
  "map_of (map (\<lambda>r. (PStr (fst r), PStr (snd r))) refs) (PStr ty)
     = map_option PStr (map_of refs ty)"
  by (induction refs) auto

lemma overlay_lookup:
  assumes "ty \<in> {''replied_to'', ''quoted'', ''retweeted''}"
  shows "map_of (dict_update ref_default
           (dict_update [] (map (\<lambda>r. (PStr (fst r), PStr (snd r))) refs))) (PStr ty)
         = Some (field_of refs ty)"
proof -
  let ?kvs = "map (\<lambda>r. (PStr (fst r), PStr (snd r))) refs"
  let ?rec = "dict_update [] ?kvs"
  have d: "distinct (map fst ?rec)" by (rule distinct_dict_update) simp
  have r: "map_of ?rec (PStr ty) = map_option PStr (map_of (rev refs) ty)"
    using map_of_tagged[of "rev refs" ty]
    by (simp add: map_of_dict_update rev_map split: option.splits)
  have def: "map_of ref_default (PStr ty) = Some (PStr '''')"
    using assms by (auto simp: ref_default_def)
  show ?thesis
    by (simp add: map_of_dict_update[of ref_default] map_of_rev_distinct[OF d] r def field_of_def
        split: option.splits)
qed

lemma overlay_keys:
  assumes "set (map fst refs) \<subseteq> {''replied_to'', ''quoted'', ''retweeted''}"
  shows "map fst (dict_update ref_default
           (dict_update [] (map (\<lambda>r. (PStr (fst r), PStr (snd r))) refs)))
         = [PStr ''replied_to'', PStr ''quoted'', PStr ''retweeted'']"
proof -
  let ?kvs = "map (\<lambda>r. (PStr (fst r), PStr (snd r))) refs"
  have "set (map fst (dict_update [] ?kvs)) = set (map fst ?kvs)"
    using keys_dict_update_subset[of "[]" ?kvs] by simp
  also have "\<dots> = PStr ` set (map fst refs)" by (simp add: image_image)
  also have "\<dots> \<subseteq> set (map fst ref_default)"
    using assms by (auto simp: ref_default_def)
  finally have "map fst (dict_update ref_default (dict_update [] ?kvs)) = map fst ref_default"
    by (rule keys_dict_update_within)
  then show ?thesis by (simp add: ref_default_def)
qed

lemma parse_ref_overlay:
  assumes "list_all2 ref_pair ds refs"
    and "set (map fst refs) \<subseteq> {''replied_to'', ''quoted'', ''retweeted''}"
  shows "parse_ref pd (PList (map PDict ds)) =
     Inr [(PStr ''replied_to'', field_of refs ''replied_to''),
          (PStr ''quoted'', field_of refs ''quoted''),
          (PStr ''retweeted'', field_of refs ''retweeted'')]"
proof (cases "ds = []")
  case True
  with assms(1) have "refs = []" by simp
  with True parse_ref_try_pairs[OF assms(1), of pd] show ?thesis
    by (simp add: parse_ref_def ref_default_def field_of_def)
next
  case False
  let ?a = "dict_update ref_default
           (dict_update [] (map (\<lambda>r. (PStr (fst r), PStr (snd r))) refs))"
  from False parse_ref_try_pairs[OF assms(1), of pd]
  have p: "parse_ref pd (PList (map PDict ds)) = Inr ?a"
    by (simp add: parse_ref_def zip_types_ids)
  have "?a = [(PStr ''replied_to'', the (map_of ?a (PStr ''replied_to''))),
              (PStr ''quoted'', the (map_of ?a (PStr ''quoted''))),
              (PStr ''retweeted'', the (map_of ?a (PStr ''retweeted'')))]"
    by (rule dict_three_keys[OF overlay_keys[OF assms(2)]]) simp
  then show ?thesis
    unfolding p by (simp add: overlay_lookup)
qed

text \<open>
  C6. For a reference list of \<^verbatim>\<open>{type, id}\<close> objects with at most one entry per reference
  type, \<^verbatim>\<open>parse_ref\<close> returns a record of exactly the three fields \<^verbatim>\<open>replied_to\<close>,
  \<^verbatim>\<open>quoted\<close>, \<^verbatim>\<open>retweeted\<close>: the field of each type in the list holds that entry's id,
  every other field the empty string.
\<close>

theorem parse_ref_one_per_type:
  assumes "list_all2 ref_pair ds refs"
    and "set (map fst refs) \<subseteq> {''replied_to'', ''quoted'', ''retweeted''}"
    and "distinct (map fst refs)"
  shows "\<exists>a. parse_ref pd (PList (map PDict ds)) = Inr a
    \<and> map fst a = [PStr ''replied_to'', PStr ''quoted'', PStr ''retweeted'']
    \<and> (\<forall>r \<in> set refs. map_of a (PStr (fst r)) = Some (PStr (snd r)))
    \<and> (\<forall>ty \<in> {''replied_to'', ''quoted'', ''retweeted''}.
          ty \<notin> set (map fst refs) \<longrightarrow> map_of a (PStr ty) = Some (PStr ''''))"
proof -
  have m: "map_of (rev refs) = map_of refs"
    by (rule map_of_rev_distinct[OF assms(3)])
  have present: "field_of refs (fst r) = PStr (snd r)" if "r \<in> set refs" for r
  proof -
    from that have "(fst r, snd r) \<in> set refs" by simp
    from map_of_is_SomeI[OF assms(3) this] show ?thesis by (simp add: field_of_def m)
  qed
  have absent: "field_of refs ty = PStr ''''" if "ty \<notin> set (map fst refs)" for ty
    using that by (simp add: field_of_def m map_of_eq_None_iff[THEN iffD2])
  have "\<forall>r \<in> set refs. fst r \<in> {''replied_to'', ''quoted'', ''retweeted''}"
    using assms(2) by auto
  then show ?thesis
    unfolding parse_ref_overlay[OF assms(1,2)]
    using present absent by (intro exI conjI) (auto simp: )
qed

text \<open>
  C8. Of several entries of one reference type, the field of that type holds the id of
  the last: the entry \<open>(ty, i)\<close> after which no entry of type \<open>ty\<close> follows, whatever
  comes before it.
\<close>

theorem parse_ref_last_wins:
  assumes "list_all2 ref_pair ds (before @ (ty, i) # after)"
    and "set (map fst (before @ (ty, i) # after)) \<subseteq> {''replied_to'', ''quoted'', ''retweeted''}"
    and "ty \<notin> set (map fst after)"
  shows "\<exists>a. parse_ref pd (PList (map PDict ds)) = Inr a
    \<and> map fst a = [PStr ''replied_to'', PStr ''quoted'', PStr ''retweeted'']
    \<and> map_of a (PStr ty) = Some (PStr i)"
proof -
  from assms(3) have "map_of (rev after) ty = None"
    by (simp add: map_of_eq_None_iff)
  then have "field_of (before @ (ty, i) # after) ty = PStr i"
    by (simp add: field_of_def map_add_def)
  moreover from assms(2) have "ty \<in> {''replied_to'', ''quoted'', ''retweeted''}" by simp
  ultimately show ?thesis
    unfolding parse_ref_overlay[OF assms(1,2)] by auto
qed

lemma set_foldl_add_key: "set (foldl add_key acc ks) = set acc \<union> set ks"
  by (induction ks arbitrary: acc) (auto simp: add_key_def)

lemma set_keys_union: "set (keys_union ds) = (\<Union>d \<in> set ds. set (map fst d))"
  by (simp add: keys_union_def set_foldl_add_key)

lemma labels_frame_of_dicts: "map fst (cols (frame_of_dicts ds)) = keys_union ds"
  by (simp add: frame_of_dicts_def comp_def)

lemma parse_ref_try_no_type:
  assumes "\<forall>d \<in> set ds. PStr ''type'' \<notin> set (map fst d)"
  shows "parse_ref_try pd (PList (map PDict ds)) = Inl KeyError"
proof -
  from assms have "PStr ''type'' \<notin> set (keys_union ds)"
    by (simp add: set_keys_union)
  then have "PStr ''type'' \<notin> fst ` set (cols (frame_of_dicts ds))"
    unfolding labels_frame_of_dicts[symmetric] by simp
  then have "map_of (cols (frame_of_dicts ds)) (PStr ''type'') = None"
    by (simp add: map_of_eq_None_iff)
  then show ?thesis
    by (simp add: parse_ref_try_def the_dicts_map_PDict set_index_def)
qed

lemma filter_all_out: "\<forall>x \<in> set xs. \<not> P x \<Longrightarrow> filter P xs = []"
  by (induction xs) auto

lemma parse_ref_try_only_type:
  assumes "\<forall>d \<in> set ds. set (map fst d) \<subseteq> {PStr ''type''}"
  shows "\<exists>e. parse_ref_try pd (PList (map PDict ds)) = Inl e"
proof (cases "map_of (cols (frame_of_dicts ds)) (PStr ''type'')")
  case None
  then show ?thesis
    by (simp add: parse_ref_try_def the_dicts_map_PDict set_index_def)
next
  case (Some cs)
  from assms have "set (keys_union ds) \<subseteq> {PStr ''type''}"
    by (auto simp: set_keys_union)
  then have "\<forall>c \<in> set (cols (frame_of_dicts ds)). fst c = PStr ''type''"
    unfolding labels_frame_of_dicts[symmetric] by auto
  then have "filter (\<lambda>(l, _). l \<noteq> PStr ''type'') (cols (frame_of_dicts ds)) = []"
    by (intro filter_all_out) auto
  then have "set_index (PStr ''type'') (frame_of_dicts ds) = Inr \<lparr>index = cs, cols = []\<rparr>"
    by (simp add: set_index_def Some)
  then show ?thesis
    by (simp add: parse_ref_try_def the_dicts_map_PDict transpose_frame_def reset_index_drop_def
        to_dict_records_def range_index_def)
qed

lemma collect_all_Inr: "collect (map (\<lambda>j. Inr (g j)) js) = Inr (map g js)"
  by (induction js) auto

lemma records_of_transposed:
  assumes rect: "list_all (\<lambda>(l, cs). length cs = length idx) cs'"
    and hash: "list_all hashable idx"
  shows "to_dict_records (reset_index_drop (transpose_frame \<lparr>index = idx, cols = cs'\<rparr>))
       = Inr (map (\<lambda>(l, cs). dict_update [] (zip idx cs)) cs')"
proof -
  let ?n = "length idx"
  let ?tcols = "map (\<lambda>i. (idx ! i, map (\<lambda>(l, cs). cs ! i) cs')) [0..<?n]"
  have row: "dict_of_pairs (map (\<lambda>(l, cs). (l, cs ! j)) ?tcols)
      = Inr (dict_update [] (zip idx (snd (cs' ! j))))" if "j < length cs'" for j
  proof -
    from that have "cs' ! j \<in> set cs'" by simp
    with rect have len: "length idx = length (snd (cs' ! j))"
      by (cases "cs' ! j") (auto simp: list_all_iff)
    have "map (\<lambda>(l, cs). (l, cs ! j)) ?tcols = map (\<lambda>i. (idx ! i, snd (cs' ! j) ! i)) [0..<?n]"
      using that by (simp add: comp_def case_prod_beta)
    also have "\<dots> = zip idx (snd (cs' ! j))"
      using zip_by_index[OF len] by simp
    finally show ?thesis
      using zip_hashable[OF hash, of "snd (cs' ! j)"] by (simp add: dict_of_pairs_def)
  qed
  have rows: "map (\<lambda>j. dict_of_pairs (map (\<lambda>(l, cs). (l, cs ! j)) ?tcols)) [0..<length cs']
      = map (\<lambda>j. Inr (dict_update [] (zip idx (snd (cs' ! j))))) [0..<length cs']"
  proof (rule map_cong)
    fix j assume "j \<in> set [0..<length cs']"
    then have "j < length cs'" by simp
    then show "dict_of_pairs (map (\<lambda>(l, cs). (l, cs ! j)) ?tcols)
        = Inr (dict_update [] (zip idx (snd (cs' ! j))))" by (rule row)
  qed (rule refl)
  have recs: "map (\<lambda>j. dict_update [] (zip idx (snd (cs' ! j)))) [0..<length cs']
      = map (\<lambda>(l, cs). dict_update [] (zip idx cs)) cs'"
    by (rule nth_equalityI) (simp_all add: case_prod_beta)
  have "to_dict_records (reset_index_drop (transpose_frame \<lparr>index = idx, cols = cs'\<rparr>))
      = collect (map (\<lambda>j. dict_of_pairs (map (\<lambda>(l, cs). (l, cs ! j)) ?tcols)) [0..<length cs'])"
    unfolding to_dict_records_def reset_index_drop_def transpose_frame_def range_index_def
    by (simp del: map_map)
  also have "\<dots> = Inr (map (\<lambda>(l, cs). dict_update [] (zip idx cs)) cs')"
    unfolding rows collect_all_Inr recs ..
  finally show ?thesis .
qed

lemma map_of_tabulate:
  "map_of (map (\<lambda>k. (k, f k)) ks) k = (if k \<in> set ks then Some (f k) else None)"
  by (induction ks) auto

lemma filter_tabulate:
  "filter (\<lambda>(l, _). l \<noteq> t) (map (\<lambda>k. (k, f k)) ks) = map (\<lambda>k. (k, f k)) (filter (\<lambda>k. k \<noteq> t) ks)"
  by (induction ks) auto

lemma frame_of_dicts_cells:
  "frame_of_dicts ds = \<lparr>index = range_index (length ds), cols = map (\<lambda>k. (k, cells_of ds k)) (keys_union ds)\<rparr>"
  by (simp add: frame_of_dicts_def cells_of_def)

lemma string_object_type_cell:
  assumes "string_object d" "PStr ''type'' \<in> set (map fst d)"
  shows "hashable (case map_of d (PStr ''type'') of None \<Rightarrow> PNaN | Some v \<Rightarrow> v)"
proof -
  from assms(2) obtain v where v: "map_of d (PStr ''type'') = Some v"
    by (metis map_of_eq_None_iff not_Some_eq set_map)
  then have "(PStr ''type'', v) \<in> set d" by (rule map_of_SomeD)
  with assms(1) have "is_str v" by (auto simp: string_object_def list_all_iff)
  then show ?thesis using v by (cases v) simp_all
qed

lemma parse_ref_try_typed_objects:
  assumes "\<forall>d \<in> set ds. string_object d \<and> PStr ''type'' \<in> set (map fst d)" "ds \<noteq> []"
  shows "parse_ref_try pd (PList (map PDict ds)) =
     (case filter (\<lambda>k. k \<noteq> PStr ''type'') (keys_union ds) of
        [] \<Rightarrow> Inl IndexError
      | k # _ \<Rightarrow> Inr (dict_update ref_default
                  (dict_update [] (zip (cells_of ds (PStr ''type'')) (cells_of ds k)))))"
proof -
  let ?others = "filter (\<lambda>k. k \<noteq> PStr ''type'') (keys_union ds)"
  let ?idx = "cells_of ds (PStr ''type'')"
  let ?cs = "map (\<lambda>k. (k, cells_of ds k)) ?others"
  from assms obtain d where "d \<in> set ds" "PStr ''type'' \<in> set (map fst d)"
    by (cases ds) auto
  then have "PStr ''type'' \<in> set (keys_union ds)"
    by (auto simp: set_keys_union)
  then have si: "set_index (PStr ''type'') (frame_of_dicts ds) = Inr \<lparr>index = ?idx, cols = ?cs\<rparr>"
    by (simp add: set_index_def frame_of_dicts_cells map_of_tabulate filter_tabulate)
  have rect: "list_all (\<lambda>(l, cs). length cs = length ?idx) ?cs"
    by (simp add: list_all_iff cells_of_def)
  have hash: "list_all hashable ?idx"
    using assms(1) by (auto simp: list_all_iff cells_of_def intro: string_object_type_cell)
  have recs: "to_dict_records (reset_index_drop (transpose_frame \<lparr>index = ?idx, cols = ?cs\<rparr>))
       = Inr (map (\<lambda>(l, cs). dict_update [] (zip ?idx cs)) ?cs)"
    by (rule records_of_transposed[OF rect hash])
  show ?thesis
    by (simp add: parse_ref_try_def the_dicts_map_PDict si recs Let_def split: list.splits)
qed

lemma the_dicts_scalars: "list_all is_scalar xs \<Longrightarrow> xs \<noteq> [] \<Longrightarrow> the_dicts xs = None"
  by (cases xs; cases "hd xs") auto

lemma parse_ref_try_scalars:
  assumes "list_all is_scalar xs"
  shows "parse_ref_try pd (PList xs) = Inl KeyError"
proof (cases "xs = []")
  case True
  then show ?thesis
    by (simp add: parse_ref_try_def frame_of_dicts_def keys_union_def set_index_def)
next
  case False
  from the_dicts_scalars[OF assms False] assms show ?thesis
    by (simp add: parse_ref_try_def set_index_def)
qed

lemma parse_ref_try_dict_of_scalars:
  assumes "list_all (\<lambda>(k, v). is_scalar v) d"
  shows "\<exists>e. parse_ref_try pd (PDict d) = Inl e"
  using assms by (simp add: parse_ref_try_def empty_frame_def set_index_def)

text \<open>
  C7, as amended. \<^verbatim>\<open>parse_ref\<close> raises on no input. It returns the all-empty record on an
  absent list (the \<^verbatim>\<open>NaN\<close> of a missing cell), on \<^verbatim>\<open>None\<close>, a string or a number, on a list
  of scalars (the empty list is one), on a single object whose fields are scalars, on a
  list of objects none of which has a \<^verbatim>\<open>type\<close> key, and on a list of objects that have no
  key but \<^verbatim>\<open>type\<close>. A list of objects with string values that all have a \<^verbatim>\<open>type\<close> key is
  no failure, whatever else it holds: the result is the all-empty record overlaid with
  the map from each entry's type to its cell in the first other column (\<^verbatim>\<open>NaN\<close> where the
  entry lacks that key), a later entry of a type replacing an earlier one.
\<close>

theorem parse_ref_default_or_overlay:
  "(\<exists>a. parse_ref pd t = Inr a)
   \<and> parse_ref pd PNaN = Inr ref_default
   \<and> parse_ref pd PNone = Inr ref_default
   \<and> parse_ref pd (PStr s) = Inr ref_default
   \<and> parse_ref pd (PInt n) = Inr ref_default
   \<and> (list_all is_scalar xs \<longrightarrow> parse_ref pd (PList xs) = Inr ref_default)
   \<and> (list_all (\<lambda>(k, v). is_scalar v) d0 \<longrightarrow> parse_ref pd (PDict d0) = Inr ref_default)
   \<and> ((\<forall>d \<in> set ds. PStr ''type'' \<notin> set (map fst d)) \<longrightarrow>
        parse_ref pd (PList (map PDict ds)) = Inr ref_default)
   \<and> ((\<forall>d \<in> set ds'. set (map fst d) \<subseteq> {PStr ''type''}) \<longrightarrow>
        parse_ref pd (PList (map PDict ds')) = Inr ref_default)
   \<and> ((\<forall>d \<in> set ds''. string_object d \<and> PStr ''type'' \<in> set (map fst d)) \<longrightarrow>
        parse_ref pd (PList (map PDict ds'')) =
          Inr (case filter (\<lambda>k. k \<noteq> PStr ''type'') (keys_union ds'') of
                 [] \<Rightarrow> ref_default
               | k # _ \<Rightarrow> dict_update ref_default
                           (dict_update [] (zip (cells_of ds'' (PStr ''type'')) (cells_of ds'' k)))))"
proof (intro conjI impI)
  show "\<exists>a. parse_ref pd t = Inr a"
    by (simp add: parse_ref_def split: sum.splits)
  show "parse_ref pd PNaN = Inr ref_default"
    by (simp add: parse_ref_def parse_ref_try_def)
  show "parse_ref pd PNone = Inr ref_default"
    by (simp add: parse_ref_def parse_ref_try_def empty_frame_def set_index_def)
  show "parse_ref pd (PStr s) = Inr ref_default"
    by (simp add: parse_ref_def parse_ref_try_def)
  show "parse_ref pd (PInt n) = Inr ref_default"
    by (simp add: parse_ref_def parse_ref_try_def)
  show "parse_ref pd (PList xs) = Inr ref_default" if "list_all is_scalar xs"
    using parse_ref_try_scalars[OF that, of pd] by (simp add: parse_ref_def)
  show "parse_ref pd (PDict d0) = Inr ref_default" if "list_all (\<lambda>(k, v). is_scalar v) d0"
    using parse_ref_try_dict_of_scalars[OF that, of pd] by (auto simp: parse_ref_def)
  show "parse_ref pd (PList (map PDict ds)) = Inr ref_default"
    if "\<forall>d \<in> set ds. PStr ''type'' \<notin> set (map fst d)"
    using parse_ref_try_no_type[OF that, of pd] by (simp add: parse_ref_def)
  show "parse_ref pd (PList (map PDict ds')) = Inr ref_default"
    if "\<forall>d \<in> set ds'. set (map fst d) \<subseteq> {PStr ''type''}"
    using parse_ref_try_only_type[OF that, of pd] by (auto simp: parse_ref_def)
  show "parse_ref pd (PList (map PDict ds'')) =
          Inr (case filter (\<lambda>k. k \<noteq> PStr ''type'') (keys_union ds'') of
                 [] \<Rightarrow> ref_default
               | k # _ \<Rightarrow> dict_update ref_default
                           (dict_update [] (zip (cells_of ds'' (PStr ''type'')) (cells_of ds'' k))))"
    if h: "\<forall>d \<in> set ds''. string_object d \<and> PStr ''type'' \<in> set (map fst d)"
  proof (cases "ds'' = []")
    case True
    then show ?thesis
      using parse_ref_try_no_type[of "[]" pd] by (simp add: parse_ref_def keys_union_def)
  next
    case False
    show ?thesis
      unfolding parse_ref_def parse_ref_try_typed_objects[OF h False]
      by (simp split: list.splits)
  qed
qed

theorem parse_ref_default_or_overlay_witness:
  "parse_ref pandas_raising (PList [PStr ''quoted'']) = Inr ref_default
   \<and> parse_ref pandas_raising (PDict [(PStr ''type'', PStr ''quoted''), (PStr ''id'', PStr ''11'')])
       = Inr ref_default
   \<and> parse_ref pandas_raising (PList [PDict [(PStr ''id'', PStr ''11'')]]) = Inr ref_default
   \<and> parse_ref pandas_raising (PList [PDict [(PStr ''type'', PStr ''quoted'')]]) = Inr ref_default
   \<and> parse_ref pandas_raising
       (PList [PDict [(PStr ''type'', PStr ''liked''), (PStr ''id'', PStr ''11'')],
               PDict [(PStr ''type'', PStr ''quoted'')]])
     = Inr [(PStr ''replied_to'', PStr ''''), (PStr ''quoted'', PNaN),
            (PStr ''retweeted'', PStr ''''), (PStr ''liked'', PStr ''11'')]"
proof -
  let ?ds = "[[(PStr ''type'', PStr ''liked''), (PStr ''id'', PStr ''11'')],
              [(PStr ''type'', PStr ''quoted'')]]"
  have k: "filter (\<lambda>k. k \<noteq> PStr ''type'') (keys_union ?ds) = [PStr ''id'']"
    by (simp add: keys_union_def add_key_def)
  have o: "dict_update ref_default
             (dict_update [] (zip (cells_of ?ds (PStr ''type'')) (cells_of ?ds (PStr ''id''))))
           = [(PStr ''replied_to'', PStr ''''), (PStr ''quoted'', PNaN),
              (PStr ''retweeted'', PStr ''''), (PStr ''liked'', PStr ''11'')]"
    by (simp add: cells_of_def dict_update_def ref_default_def)
  from parse_ref_default_or_overlay[of pandas_raising "PList [PStr ''quoted'']" "''x''" 0
      "[PStr ''quoted'']" "[(PStr ''type'', PStr ''quoted''), (PStr ''id'', PStr ''11'')]"
      "[[(PStr ''id'', PStr ''11'')]]" "[[(PStr ''type'', PStr ''quoted'')]]" ?ds]
  show ?thesis
    by (simp add: k o string_object_def)
qed

text \<open>
  C7, the claim as it stands: not every malformed list gives the all-empty record. An
  entry of a type outside the three adds a fourth field; an entry without \<^verbatim>\<open>id\<close> leaves
  \<^verbatim>\<open>NaN\<close> in the field of its type; one object of lists in place of a list of objects is
  read column by column and fills a field.
\<close>

theorem parse_ref_malformed_not_default:
  "parse_ref pandas_raising
       (PList [PDict [(PStr ''type'', PStr ''liked''), (PStr ''id'', PStr ''11'')]])
     = Inr [(PStr ''replied_to'', PStr ''''), (PStr ''quoted'', PStr ''''),
            (PStr ''retweeted'', PStr ''''), (PStr ''liked'', PStr ''11'')]
   \<and> parse_ref pandas_raising
       (PList [PDict [(PStr ''type'', PStr ''liked''), (PStr ''id'', PStr ''11'')]])
     \<noteq> Inr ref_default
   \<and> parse_ref pandas_raising
       (PList [PDict [(PStr ''type'', PStr ''quoted''), (PStr ''id'', PStr ''11'')],
               PDict [(PStr ''type'', PStr ''retweeted'')]])
     = Inr [(PStr ''replied_to'', PStr ''''), (PStr ''quoted'', PStr ''11''),
            (PStr ''retweeted'', PNaN)]
   \<and> parse_ref pandas_raising
       (PDict [(PStr ''type'', PList [PStr ''quoted'']), (PStr ''id'', PList [PStr ''11''])])
     = Inr [(PStr ''replied_to'', PStr ''''), (PStr ''quoted'', PStr ''11''),
            (PStr ''retweeted'', PStr '''')]"
  by (simp add: parse_ref_def parse_ref_try_def frame_of_dicts_def frame_of_lists_def
      keys_union_def add_key_def set_index_def transpose_frame_def reset_index_drop_def
      to_dict_records_def range_index_def dict_of_pairs_def dict_update_def ref_default_def)

theorem parse_ref_one_per_type_witness:
  "list_all2 ref_pair
      [[(PStr ''type'', PStr ''quoted''), (PStr ''id'', PStr ''11'')],
       [(PStr ''id'', PStr ''22''), (PStr ''type'', PStr ''retweeted'')]]
      [(''quoted'', ''11''), (''retweeted'', ''22'')]
   \<and> parse_ref pandas_raising
       (PList [PDict [(PStr ''type'', PStr ''quoted''), (PStr ''id'', PStr ''11'')],
               PDict [(PStr ''id'', PStr ''22''), (PStr ''type'', PStr ''retweeted'')]])
     = Inr [(PStr ''replied_to'', PStr ''''), (PStr ''quoted'', PStr ''11''),
            (PStr ''retweeted'', PStr ''22'')]"
proof -
  let ?ds = "[[(PStr ''type'', PStr ''quoted''), (PStr ''id'', PStr ''11'')],
       [(PStr ''id'', PStr ''22''), (PStr ''type'', PStr ''retweeted'')]]"
  let ?refs = "[(''quoted'', ''11''), (''retweeted'', ''22'')]"
  have h: "list_all2 ref_pair ?ds ?refs" by (simp add: ref_pair_def)
  have s: "set (map fst ?refs) \<subseteq> {''replied_to'', ''quoted'', ''retweeted''}" by simp
  have d: "distinct (map fst ?refs)" by simp
  from parse_ref_one_per_type[OF h s d, of pandas_raising]
  obtain a where a: "parse_ref pandas_raising (PList (map PDict ?ds)) = Inr a"
    and k: "map fst a = [PStr ''replied_to'', PStr ''quoted'', PStr ''retweeted'']"
    and q: "map_of a (PStr ''quoted'') = Some (PStr ''11'')"
    and r: "map_of a (PStr ''retweeted'') = Some (PStr ''22'')"
    and p: "map_of a (PStr ''replied_to'') = Some (PStr '''')"
    by auto
  from dict_three_keys[OF k] q r p
  have "a = [(PStr ''replied_to'', PStr ''''), (PStr ''quoted'', PStr ''11''),
            (PStr ''retweeted'', PStr ''22'')]" by simp
  with a h show ?thesis by simp
qed

theorem parse_ref_last_wins_witness:
  "list_all2 ref_pair
      [[(PStr ''type'', PStr ''quoted''), (PStr ''id'', PStr ''11'')],
       [(PStr ''type'', PStr ''quoted''), (PStr ''id'', PStr ''22'')],
       [(PStr ''type'', PStr ''replied_to''), (PStr ''id'', PStr ''33'')]]
      ([(''quoted'', ''11'')] @ (''quoted'', ''22'') # [(''replied_to'', ''33'')])
   \<and> (\<exists>a. parse_ref pandas_raising
       (PList [PDict [(PStr ''type'', PStr ''quoted''), (PStr ''id'', PStr ''11'')],
               PDict [(PStr ''type'', PStr ''quoted''), (PStr ''id'', PStr ''22'')],
               PDict [(PStr ''type'', PStr ''replied_to''), (PStr ''id'', PStr ''33'')]]) = Inr a
        \<and> map fst a = [PStr ''replied_to'', PStr ''quoted'', PStr ''retweeted'']
        \<and> map_of a (PStr ''quoted'') = Some (PStr ''22''))"
proof -
  let ?ds = "[[(PStr ''type'', PStr ''quoted''), (PStr ''id'', PStr ''11'')],
       [(PStr ''type'', PStr ''quoted''), (PStr ''id'', PStr ''22'')],
       [(PStr ''type'', PStr ''replied_to''), (PStr ''id'', PStr ''33'')]]"
  have h: "list_all2 ref_pair ?ds ([(''quoted'', ''11'')] @ (''quoted'', ''22'') # [(''replied_to'', ''33'')])"
    by (simp add: ref_pair_def)
  have s: "set (map fst ([(''quoted'', ''11'')] @ (''quoted'', ''22'') # [(''replied_to'', ''33'')]))
      \<subseteq> {''replied_to'', ''quoted'', ''retweeted''}" by simp
  have n: "''quoted'' \<notin> set (map fst [(''replied_to'', ''33'')])" by simp
  from parse_ref_last_wins[OF h s n, of pandas_raising] h show ?thesis by simp
qed

section \<open>Properties of the tweet extractor\<close>


text \<open>
  On a batch without the field, whatever \<^verbatim>\<open>parse_data\<close> returns is the frame of the raw
  records: the metrics are computed (a failure there still raises) and dropped.
\<close>

lemma parse_data_without_references:
  assumes "\<forall>d \<in> set ds. PStr ''referenced_tweets'' \<notin> set (map fst d)"
  shows "parse_data pd (PList (map PDict ds)) =
     (case column (frame_of_dicts ds) (PStr ''public_metrics'') of
        Inl e \<Rightarrow> Inl e
      | Inr cells \<Rightarrow>
         (case apply_Series pd (index (frame_of_dicts ds)) cells of
            Inl e \<Rightarrow> Inl e
          | Inr metrics \<Rightarrow> Inr (frame_of_dicts ds)))"
proof -
  from assms have "PStr ''referenced_tweets'' \<notin> set (keys_union ds)"
    by (simp add: set_keys_union)
  then have "PStr ''referenced_tweets'' \<notin> fst ` set (cols (frame_of_dicts ds))"
    unfolding labels_frame_of_dicts[symmetric] by simp
  then have "map_of (cols (frame_of_dicts ds)) (PStr ''referenced_tweets'') = None"
    by (simp add: map_of_eq_None_iff)
  then have "parse_data_try pd (frame_of_dicts ds) m = Inl KeyError" for m
    by (simp add: parse_data_try_def column_def)
  then show ?thesis
    by (simp add: parse_data_def the_dicts_map_PDict split: sum.splits)
qed

lemma demo_batch_base:
  "DataFrame pd demo_batch =
     Inr \<lparr>index = [PInt 0],
          cols = [(PStr ''id'', [PStr ''t1'']), (PStr ''author_id'', [PStr ''u1'']),
                  (PStr ''public_metrics'',
                    [PDict [(PStr ''retweet_count'', PInt 3), (PStr ''like_count'', PInt 5)]])]\<rparr>"
  by (simp add: demo_batch_def frame_of_dicts_def keys_union_def add_key_def range_index_def)

lemma demo_batch_metrics:
  "apply_Series pd [PInt 0]
      [PDict [(PStr ''retweet_count'', PInt 3), (PStr ''like_count'', PInt 5)]] =
     Inr \<lparr>index = [PInt 0],
          cols = [(PStr ''retweet_count'', [PInt 3]), (PStr ''like_count'', [PInt 5])]\<rparr>"
  by (simp add: apply_Series_def frame_of_dicts_def keys_union_def add_key_def range_index_def)

text \<open>
  C5. The claim: for a batch in which no tweet has a \<^verbatim>\<open>referenced_tweets\<close> field,
  \<^verbatim>\<open>parse_data\<close> returns the original fields joined with the exploded public-metrics
  columns. The join is the last statement of the \<^verbatim>\<open>try\<close>, after the read of the missing
  column, so the handler is left with the frame of the first line: the batch of one such
  tweet comes back without \<^verbatim>\<open>retweet_count\<close> and \<^verbatim>\<open>like_count\<close>, which \<^verbatim>\<open>parse_users\<close>
  on the same records does add.
\<close>

theorem parse_data_drops_metrics:
  "parse_data pd demo_batch =
     Inr \<lparr>index = [PInt 0],
          cols = [(PStr ''id'', [PStr ''t1'']), (PStr ''author_id'', [PStr ''u1'']),
                  (PStr ''public_metrics'',
                    [PDict [(PStr ''retweet_count'', PInt 3), (PStr ''like_count'', PInt 5)]])]\<rparr>
   \<and> fst (parse_users pd (PDict [(PStr ''includes'', PDict [(PStr ''users'', demo_batch)])]) None) =
     Inr \<lparr>index = [PInt 0],
          cols = [(PStr ''id'', [PStr ''t1'']), (PStr ''author_id'', [PStr ''u1'']),
                  (PStr ''public_metrics'',
                    [PDict [(PStr ''retweet_count'', PInt 3), (PStr ''like_count'', PInt 5)]]),
                  (PStr ''retweet_count'', [PInt 3]), (PStr ''like_count'', [PInt 5])]\<rparr>"
  by (simp add: parse_data_def parse_users_def demo_batch_base demo_batch_metrics column_def
      parse_data_try_def concat_columns_def dict_get_def)

section \<open>Properties of the flush helper\<close>


lemma concat_and_pickle_unbound:
  "\<not> logger_bound g \<Longrightarrow> fst (concat_and_pickle g w pd a name path st) = Some NameError"
  by (simp add: concat_and_pickle_def global_logger_def Let_def split: sum.splits)




text \<open>
  C10. \<^verbatim>\<open>concat_and_pickle\<close> does not mutate its \<^verbatim>\<open>df_list\<close> argument: after the call,
  whether it saved the pickle, failed to concatenate, failed to persist, or was left by an
  exception, the list object holds the frames it held before, in the same order, and so
  does every other list object.
\<close>

theorem concat_and_pickle_keeps_df_list:
  "heap (snd (concat_and_pickle g w pd df_list df_name pickle_path st)) df_list = heap st df_list
   \<and> heap (snd (concat_and_pickle g w pd df_list df_name pickle_path st)) = heap st"
proof -
  have logged: "heap (snd (global_logger g entry s)) = heap s" for entry s
    by (simp add: global_logger_def)
  have "heap (snd (concat_and_pickle g w pd df_list df_name pickle_path st)) = heap st"
  proof (cases "concat_rows pd (heap st df_list)")
    case (Inl e)
    then show ?thesis
      by (simp add: concat_and_pickle_def logged)
  next
    case (Inr df)
    show ?thesis
    proof (cases "to_pickle_raises w pickle_path (replace_nulls df)")
      case True
      with Inr show ?thesis
        by (simp add: concat_and_pickle_def logged)
    next
      case False
      with Inr show ?thesis
        by (simp add: concat_and_pickle_def global_logger_def Let_def)
    qed
  qed
  then show ?thesis by simp
qed

text \<open>
  C4. The claim: a concatenation or persistence failure in \<^verbatim>\<open>concat_and_pickle\<close> is logged
  as a warning and control returns. In the module as written every call of
  \<^verbatim>\<open>concat_and_pickle\<close> is left by \<^verbatim>\<open>NameError\<close>: both handlers (and the success path) read
  \<^verbatim>\<open>logger\<close>, which is neither a parameter of the function nor a name of the module. With
  the name bound the claim holds (the three lemmas above on the bound logger).
\<close>

theorem concat_and_pickle_unbound_logger:
  "fst (concat_and_pickle module_globals w pd df_list df_name pickle_path st) = Some NameError"
  by (simp add: concat_and_pickle_unbound module_globals_def)

section \<open>Properties of the aggregator\<close>

lemma extract_users_raises: "extract_users pd file res st = (Some TypeError, st)"
  by (simp add: extract_users_def call_without_logger_def)

lemma extract_tweets_eq:
  "extract_tweets pd file res st =
     (case (case subscript res (PStr ''data'') of
              Inl e \<Rightarrow> Inl e
            | Inr data \<Rightarrow> parse_data pd data) of
        Inl e \<Rightarrow> logger_call (WARNING, CannotParse file e) st
      | Inr tweets \<Rightarrow>
          logger_call (WARNING, CannotParse file TypeError) (list_append all_tweets tweets st))"
  by (simp add: extract_tweets_def extract_users_raises split: sum.splits)



lemma process_file_heap_others:
  "a \<noteq> all_tweets \<Longrightarrow> heap (process_file w pd c f st) a = heap st a"
  by (simp add: process_file_def extract_tweets_eq logger_call_def list_append_def split: sum.splits)




















end
